theory Spec2Isabelle
  imports Complex_Main
begin

section \<open>Errors, tensors and the primitives of the numeric library\<close>

text \<open>
  The module under verification is \<^verbatim>\<open>fms/modules/attention.py\<close>: a rotary embedding cache
  (\<^verbatim>\<open>GaudiRotaryEmbedding\<close>), the attention layer (\<^verbatim>\<open>MultiHeadAttention\<close>) and its tensor
  parallel subclass (\<^verbatim>\<open>TPMultiHeadAttention\<close>).

  Every exception the Python code can raise is a value of \<open>error\<close>; a function that can
  raise returns \<open>error + 'a\<close> with \<open>Inl\<close> for the exception.
\<close>

datatype error =
    AssertionError string
  | ZeroDivisionError
  | ValueError string
  | IndexError string
  | RuntimeError string
  | UnboundLocalError string
  | AttributeError "string set"

datatype device = CPU | CUDA | HPU

datatype dtype = Float32 | Float16 | BFloat16 | Int64

text \<open>
  A tensor is its shape together with the function that reads the element at a
  multi-index, and the dtype and device it carries. View operations of the library
  (\<^verbatim>\<open>transpose\<close>, \<^verbatim>\<open>unsqueeze\<close>, \<^verbatim>\<open>expand\<close>, \<^verbatim>\<open>flatten\<close>, slicing) remap indices and
  leave the elements alone, which is what they are in this model. Sizes and head counts
  are natural numbers. The element type \<open>'a\<close> stands for the floating point numbers;
  no arithmetic on it is fixed here.
\<close>

record 'a tensor =
  shape :: "nat list"
  elem :: "nat list \<Rightarrow> 'a"
  dtype :: dtype
  device :: device

definition numel :: "'a tensor \<Rightarrow> nat" where
  "numel t = prod_list (shape t)"

text \<open>
  The floating point primitives the module relies on, as parameters: the
  multiply-accumulate of a linear layer, the inverse frequency \<^verbatim>\<open>1.0 / base ** (k / dim)\<close>,
  the product \<^verbatim>\<open>float(p) * f\<close> of a position with a frequency, cosine, sine, the
  conversion to a dtype, addition, the values a freshly constructed parameter holds, and
  the default dtype of the library.
\<close>

record 'a fp =
  mac :: "'a list \<Rightarrow> 'a list \<Rightarrow> 'a option \<Rightarrow> 'a"
  inv_freq_at :: "real \<Rightarrow> nat \<Rightarrow> nat \<Rightarrow> 'a"
  outer_at :: "nat \<Rightarrow> 'a \<Rightarrow> 'a"
  fcos :: "'a \<Rightarrow> 'a"
  fsin :: "'a \<Rightarrow> 'a"
  cast :: "dtype \<Rightarrow> 'a \<Rightarrow> 'a"
  fadd :: "'a \<Rightarrow> 'a \<Rightarrow> 'a"
  init_at :: "nat list \<Rightarrow> nat list \<Rightarrow> 'a"
  default_dtype :: dtype

text \<open>\<^verbatim>\<open>t.to(dtype)\<close>: every element converted, the shape kept.\<close>

definition to_dtype :: "'a fp \<Rightarrow> dtype \<Rightarrow> 'a tensor \<Rightarrow> 'a tensor" where
  "to_dtype f d t = t\<lparr>elem := (\<lambda>idx. cast f d (elem t idx)), dtype := d\<rparr>"

text \<open>\<^verbatim>\<open>t[:n]\<close>: the first \<open>n\<close> rows along axis 0; a 0-dimensional tensor cannot be sliced.\<close>

definition slice0 :: "nat \<Rightarrow> 'a tensor \<Rightarrow> error + 'a tensor" where
  "slice0 n t =
     (case shape t of
        [] \<Rightarrow> Inl (IndexError ''slice() cannot be applied to a 0-dim tensor'')
      | m # ms \<Rightarrow> Inr (t\<lparr>shape := min n m # ms\<rparr>))"

section \<open>GaudiRotaryEmbedding\<close>

record 'a GaudiRotaryEmbedding =
  scaling_factor :: real
  dim :: nat
  max_position_embeddings :: nat
  base :: real
  inv_freq :: "'a tensor"
  max_seq_len_cached :: nat
  cos_cached :: "'a tensor"
  sin_cached :: "'a tensor"

text \<open>
  The body of \<^verbatim>\<open>_set_cos_sin_cache\<close> after the assignment of \<^verbatim>\<open>max_seq_len_cached\<close>:
  \<^verbatim>\<open>t = arange(seq_len)\<close>, \<^verbatim>\<open>freqs = outer(t, inv_freq)\<close>, \<^verbatim>\<open>emb = cat((freqs, freqs), dim=-1)\<close>,
  and the two tables \<^verbatim>\<open>emb.cos().to(dtype)\<close>, \<^verbatim>\<open>emb.sin().to(dtype)\<close>. With \<open>h\<close> frequencies the
  tables have \<open>2 * h\<close> columns, and column \<open>j\<close> reads frequency \<open>j\<close> or \<open>j - h\<close>.
\<close>

definition emb_at :: "'a fp \<Rightarrow> 'a tensor \<Rightarrow> nat list \<Rightarrow> 'a" where
  "emb_at f ifr idx =
     (let h = hd (shape ifr); j = idx ! 1
      in outer_at f (idx ! 0) (elem ifr [if j < h then j else j - h]))"

definition cos_sin_tables ::
  "'a fp \<Rightarrow> 'a tensor \<Rightarrow> nat \<Rightarrow> device \<Rightarrow> dtype \<Rightarrow> 'a tensor \<times> 'a tensor" where
  "cos_sin_tables f ifr seq_len dev dt =
     (let sh = [seq_len, 2 * hd (shape ifr)]
      in (\<lparr>shape = sh, elem = (\<lambda>idx. cast f dt (fcos f (emb_at f ifr idx))),
           dtype = dt, device = dev\<rparr>,
          \<lparr>shape = sh, elem = (\<lambda>idx. cast f dt (fsin f (emb_at f ifr idx))),
           dtype = dt, device = dev\<rparr>))"

definition set_cos_sin_cache ::
  "'a fp \<Rightarrow> 'a GaudiRotaryEmbedding \<Rightarrow> nat \<Rightarrow> device \<Rightarrow> dtype \<Rightarrow> 'a GaudiRotaryEmbedding" where
  "set_cos_sin_cache f self seq_len dev dt =
     (let tabs = cos_sin_tables f (inv_freq self) seq_len dev dt
      in self\<lparr>max_seq_len_cached := seq_len, cos_cached := fst tabs, sin_cached := snd tabs\<rparr>)"

text \<open>
  The constructor: \<^verbatim>\<open>inv_freq\<close> has one entry for every element of \<^verbatim>\<open>arange(0, dim, 2)\<close>, and
  the tables are built once for \<^verbatim>\<open>max_position_embeddings\<close> positions. A device of \<open>None\<close>
  is the default device.
\<close>

definition GaudiRotaryEmbedding_init ::
  "'a fp \<Rightarrow> nat \<Rightarrow> nat \<Rightarrow> real \<Rightarrow> device option \<Rightarrow> 'a GaudiRotaryEmbedding" where
  "GaudiRotaryEmbedding_init f dm max_pos bs dev =
     (let d = (case dev of None \<Rightarrow> CPU | Some d' \<Rightarrow> d');
          ifr = \<lparr>shape = [(dm + 1) div 2],
                 elem = (\<lambda>idx. inv_freq_at f bs dm (2 * hd idx)),
                 dtype = Float32, device = d\<rparr>;
          tabs = cos_sin_tables f ifr max_pos d (default_dtype f)
      in \<lparr>scaling_factor = 1, dim = dm, max_position_embeddings = max_pos, base = bs,
          inv_freq = ifr, max_seq_len_cached = max_pos,
          cos_cached = fst tabs, sin_cached = snd tabs\<rparr>)"

text \<open>
  \<^verbatim>\<open>forward(x, seq_len)\<close>: the tables are regenerated only when \<^verbatim>\<open>seq_len\<close> exceeds
  \<^verbatim>\<open>max_seq_len_cached\<close>; the result is the first \<^verbatim>\<open>seq_len\<close> rows of each table in the dtype
  of \<open>x\<close>. The module is returned with the result, since the call may replace its tables.
\<close>

definition GaudiRotaryEmbedding_forward ::
  "'a fp \<Rightarrow> 'a GaudiRotaryEmbedding \<Rightarrow> 'a tensor \<Rightarrow> nat \<Rightarrow>
     error + ('a GaudiRotaryEmbedding \<times> 'a tensor \<times> 'a tensor)" where
  "GaudiRotaryEmbedding_forward f self x seq_len =
     (let self' = (if seq_len > max_seq_len_cached self
                   then set_cos_sin_cache f self seq_len (device x) (dtype x) else self)
      in case slice0 seq_len (cos_cached self') of
           Inl e \<Rightarrow> Inl e
         | Inr c \<Rightarrow>
             (case slice0 seq_len (sin_cached self') of
                Inl e \<Rightarrow> Inl e
              | Inr s \<Rightarrow> Inr (self', to_dtype f (dtype x) c, to_dtype f (dtype x) s)))"

text \<open>
  What every state reached from the constructor satisfies: both tables are 2-dimensional
  with exactly \<^verbatim>\<open>max_seq_len_cached\<close> rows.
\<close>

definition rotary_inv :: "'a GaudiRotaryEmbedding \<Rightarrow> bool" where
  "rotary_inv self =
     (length (shape (cos_cached self)) = 2 \<and> length (shape (sin_cached self)) = 2 \<and>
      hd (shape (cos_cached self)) = max_seq_len_cached self \<and>
      hd (shape (sin_cached self)) = max_seq_len_cached self)"

section \<open>Tensor operations used by the attention layer\<close>

text \<open>
  Row-major position of a multi-index in a tensor of the given sizes, and back. They give
  \<^verbatim>\<open>view\<close> and \<^verbatim>\<open>flatten\<close> their meaning on contiguous data.
\<close>

fun ravel :: "nat list \<Rightarrow> nat list \<Rightarrow> nat" where
  "ravel (n # ns) (i # is) = i * prod_list ns + ravel ns is"
| "ravel _ _ = 0"

fun unravel :: "nat list \<Rightarrow> nat \<Rightarrow> nat list" where
  "unravel [] k = []"
| "unravel (n # ns) k = (k div prod_list ns) # unravel ns (k mod prod_list ns)"

text \<open>\<^verbatim>\<open>t.view(sizes)\<close>: the same elements in row-major order under new sizes.\<close>

definition view :: "nat list \<Rightarrow> 'a tensor \<Rightarrow> error + 'a tensor" where
  "view sizes t =
     (if prod_list sizes \<noteq> numel t
      then Inl (RuntimeError ''shape is invalid for input size'')
      else Inr (t\<lparr>shape := sizes,
                  elem := (\<lambda>idx. elem t (unravel (shape t) (ravel sizes idx)))\<rparr>))"

text \<open>\<^verbatim>\<open>t.transpose(d0, d1)\<close> for non-negative axes.\<close>

definition swap :: "nat \<Rightarrow> nat \<Rightarrow> 'b list \<Rightarrow> 'b list" where
  "swap i j xs = xs[i := xs ! j, j := xs ! i]"

definition transpose_t :: "nat \<Rightarrow> nat \<Rightarrow> 'a tensor \<Rightarrow> error + 'a tensor" where
  "transpose_t d0 d1 t =
     (if d0 < length (shape t) \<and> d1 < length (shape t)
      then Inr (t\<lparr>shape := swap d0 d1 (shape t),
                  elem := (\<lambda>idx. elem t (swap d0 d1 idx))\<rparr>)
      else Inl (IndexError ''Dimension out of range''))"

text \<open>
  \<^verbatim>\<open>t.unsqueeze(d)\<close> for a non-negative axis: a new axis of size 1 at position \<open>d\<close>, which
  must not exceed the number of axes. No element changes; the new coordinate is ignored.
\<close>

definition unsqueeze :: "nat \<Rightarrow> 'a tensor \<Rightarrow> error + 'a tensor" where
  "unsqueeze d t =
     (if d \<le> length (shape t)
      then Inr (t\<lparr>shape := take d (shape t) @ [1] @ drop d (shape t),
                  elem := (\<lambda>idx. elem t (take d idx @ drop (Suc d) idx))\<rparr>)
      else Inl (IndexError ''Dimension out of range''))"

text \<open>
  \<^verbatim>\<open>torch.cat((a, b), dim=d)\<close>: both tensors have the same number of axes and agree on
  every axis but \<open>d\<close>; the library also accepts the 1-dimensional empty tensor of shape
  \<open>[0]\<close> beside anything, and skips it.
\<close>

definition cat :: "'a tensor \<Rightarrow> 'a tensor \<Rightarrow> nat \<Rightarrow> error + 'a tensor" where
  "cat a b d =
     (if shape a = [0] then Inr b
      else if shape b = [0] then Inr a
      else if d < length (shape a) \<and> length (shape a) = length (shape b) \<and>
              (shape a)[d := 0] = (shape b)[d := 0]
      then Inr (a\<lparr>shape := (shape a)[d := shape a ! d + shape b ! d],
                  elem := (\<lambda>idx. if idx ! d < shape a ! d then elem a idx
                                  else elem b (idx[d := idx ! d - shape a ! d]))\<rparr>)
      else Inl (RuntimeError ''Sizes of tensors must match except in the cat dimension''))"

text \<open>
  \<^verbatim>\<open>t.expand(sizes)\<close>: \<open>-1\<close> keeps an axis, an axis of size 1 is repeated to the requested
  size, any other axis must already have it. Sizes in excess of the tensor's axes name new
  leading axes and cannot be \<open>-1\<close>.
\<close>

fun expand_sizes :: "int list \<Rightarrow> nat list \<Rightarrow> nat list option" where
  "expand_sizes [] [] = Some []"
| "expand_sizes (s # ss) (m # ms) =
     (case expand_sizes ss ms of
        None \<Rightarrow> None
      | Some r \<Rightarrow>
          if s = -1 then Some (m # r)
          else if 0 \<le> s \<and> (m = 1 \<or> int m = s) then Some (nat s # r)
          else None)"
| "expand_sizes _ _ = None"

definition expand :: "int list \<Rightarrow> 'a tensor \<Rightarrow> error + 'a tensor" where
  "expand sizes t =
     (let r = length (shape t); n = length sizes
      in if n < r then Inl (RuntimeError ''expand: fewer sizes than dimensions'')
         else if \<exists>s \<in> set (take (n - r) sizes). s < 0
         then Inl (RuntimeError ''expand: -1 is not allowed in a leading, non-existing dimension'')
         else case expand_sizes (drop (n - r) sizes) (shape t) of
                None \<Rightarrow> Inl (RuntimeError ''expand: size must match the existing size'')
              | Some sh \<Rightarrow>
                  Inr (t\<lparr>shape := map nat (take (n - r) sizes) @ sh,
                         elem := (\<lambda>idx. elem t (map2 (\<lambda>m i. if m = 1 then 0 else i)
                                                 (shape t) (drop (n - r) idx)))\<rparr>))"

text \<open>
  \<^verbatim>\<open>t.flatten(s, e)\<close>: the axes \<open>s..e\<close> become one axis, whose coordinate is the row-major
  position within them.
\<close>

definition flatten :: "nat \<Rightarrow> nat \<Rightarrow> 'a tensor \<Rightarrow> error + 'a tensor" where
  "flatten s e t =
     (if s \<le> e \<and> e < length (shape t)
      then let mid = take (Suc e - s) (drop s (shape t))
           in Inr (t\<lparr>shape := take s (shape t) @ [prod_list mid] @ drop (Suc e) (shape t),
                     elem := (\<lambda>idx. elem t (take s idx @ unravel mid (idx ! s)
                                             @ drop (Suc s) idx))\<rparr>)
      else Inl (IndexError ''Dimension out of range''))"

text \<open>Sequencing of calls that can raise.\<close>

definition ebind :: "error + 'b \<Rightarrow> ('b \<Rightarrow> error + 'c) \<Rightarrow> error + 'c" where
  "ebind m g = (case m of Inl e \<Rightarrow> Inl e | Inr x \<Rightarrow> g x)"

text \<open>Reading a local variable that no executed statement has assigned.\<close>

definition read_local :: "string \<Rightarrow> 'b option \<Rightarrow> error + 'b" where
  "read_local name v =
     (case v of None \<Rightarrow> Inl (UnboundLocalError name) | Some x \<Rightarrow> Inr x)"

section \<open>Linear layers\<close>

record 'a linear =
  weight :: "'a tensor"
  bias :: "'a tensor option"

definition new_param :: "'a fp \<Rightarrow> nat list \<Rightarrow> 'a tensor" where
  "new_param f sh = \<lparr>shape = sh, elem = init_at f sh, dtype = default_dtype f, device = CPU\<rparr>"

text \<open>\<^verbatim>\<open>nn.Linear(in_features, out_features, bias)\<close>.\<close>

definition nn_Linear :: "'a fp \<Rightarrow> nat \<Rightarrow> nat \<Rightarrow> bool \<Rightarrow> 'a linear" where
  "nn_Linear f n_in n_out b =
     \<lparr>weight = new_param f [n_out, n_in],
      bias = (if b then Some (new_param f [n_out]) else None)\<rparr>"

text \<open>
  Applying a linear layer: the last axis of the input must have \<^verbatim>\<open>in_features\<close> entries and
  is replaced by \<^verbatim>\<open>out_features\<close> entries, each the multiply-accumulate of an input row
  with a weight row and the bias entry.
\<close>

definition linear_call :: "'a fp \<Rightarrow> 'a linear \<Rightarrow> 'a tensor \<Rightarrow> error + 'a tensor" where
  "linear_call f l x =
     (let w = weight l
      in if shape x \<noteq> [] \<and> length (shape w) = 2 \<and> last (shape x) = shape w ! 1
         then Inr (x\<lparr>shape := butlast (shape x) @ [shape w ! 0],
                     elem := (\<lambda>idx. mac f
                                (map (\<lambda>i. elem x (butlast idx @ [i])) [0 ..< shape w ! 1])
                                (map (\<lambda>i. elem w [last idx, i]) [0 ..< shape w ! 1])
                                (map_option (\<lambda>b. elem b [last idx]) (bias l)))\<rparr>)
         else Inl (RuntimeError ''mat1 and mat2 shapes cannot be multiplied''))"

section \<open>MultiHeadAttention: the module and its constructor\<close>

text \<open>
  The position encoder is an object of another module, used through its two methods
  \<^verbatim>\<open>adjusted_qk(queries, keys, position_ids, past_kv_state, use_cache)\<close> and
  \<^verbatim>\<open>adjusted_mask(mask, queries, keys, past_kv_state, use_cache)\<close>.
\<close>

record 'a position_encoder =
  adjusted_qk ::
    "'a tensor \<Rightarrow> 'a tensor \<Rightarrow> int tensor option \<Rightarrow> ('a tensor \<times> 'a tensor) option \<Rightarrow> bool
       \<Rightarrow> error + ('a tensor \<times> 'a tensor)"
  adjusted_mask ::
    "'a tensor option \<Rightarrow> 'a tensor \<Rightarrow> 'a tensor \<Rightarrow> ('a tensor \<times> 'a tensor) option \<Rightarrow> bool
       \<Rightarrow> error + 'a tensor option"

text \<open>
  The kernels the layer dispatches to: the fused rotary kernel and the fused attention
  kernel of the accelerator, and the library's \<^verbatim>\<open>scaled_dot_product_attention\<close>, which
  receives the algorithm hint that selects its backend. Each takes queries, keys, values,
  the mask, the dropout probability and the causal flag.
\<close>

record 'a kernels =
  FusedRoPE_apply :: "'a tensor \<Rightarrow> 'a tensor \<Rightarrow> 'a tensor \<Rightarrow> int tensor \<Rightarrow> error + 'a tensor"
  FusedSDPA_apply ::
    "'a tensor \<Rightarrow> 'a tensor \<Rightarrow> 'a tensor \<Rightarrow> 'a tensor option \<Rightarrow> real \<Rightarrow> bool \<Rightarrow> error + 'a tensor"
  scaled_dot_product_attention ::
    "string option \<Rightarrow> 'a tensor \<Rightarrow> 'a tensor \<Rightarrow> 'a tensor \<Rightarrow> 'a tensor option \<Rightarrow> real \<Rightarrow> bool
       \<Rightarrow> error + 'a tensor"

record sdp_backends =
  flash_sdp_enabled :: bool
  mem_efficient_sdp_enabled :: bool
  math_sdp_enabled :: bool

record 'a MultiHeadAttention =
  nheads :: nat
  kvheads :: nat
  emb_dim :: nat
  emb_kq_per_head :: nat
  emb_v_per_head :: nat
  p_dropout :: real
  use_bias :: bool
  query :: "'a linear"
  key :: "'a linear"
  value' :: "'a linear"
  dense :: "'a linear"
  position_encoder :: "'a position_encoder option"
  previous_flash :: bool
  previous_mem_efficient :: bool
  previous_math :: bool
  rotary_emb :: "'a GaudiRotaryEmbedding"
  training :: bool

text \<open>
  \<^verbatim>\<open>MultiHeadAttention.__init__\<close>. Two statements can raise: \<^verbatim>\<open>nn.Dropout(p)\<close>, built only for
  a non-zero probability, refuses one outside \<open>[0, 1]\<close>, and \<^verbatim>\<open>emb_dim // nheads\<close> divides by
  the head count.
\<close>

definition MultiHeadAttention_init ::
  "'a fp \<Rightarrow> sdp_backends \<Rightarrow> nat \<Rightarrow> nat \<Rightarrow> nat \<Rightarrow> nat \<Rightarrow> nat \<Rightarrow> real option \<Rightarrow> bool \<Rightarrow>
     'a position_encoder option \<Rightarrow> error + 'a MultiHeadAttention" where
  "MultiHeadAttention_init f be ed ekq ev nh kvh p ub pe =
     (let pd = (case p of None \<Rightarrow> 0 | Some x \<Rightarrow> x)
      in if pd \<noteq> 0 \<and> (pd < 0 \<or> 1 < pd)
         then Inl (ValueError ''dropout probability has to be between 0 and 1'')
         else if nh = 0 then Inl ZeroDivisionError
         else Inr \<lparr>nheads = nh, kvheads = kvh, emb_dim = ed, emb_kq_per_head = ekq,
                   emb_v_per_head = ev, p_dropout = pd, use_bias = ub,
                   query = nn_Linear f ed (nh * ekq) ub,
                   key = nn_Linear f ed (kvh * ekq) ub,
                   value' = nn_Linear f ed (kvh * ev) ub,
                   dense = nn_Linear f (nh * ev) ed ub,
                   position_encoder = pe,
                   previous_flash = flash_sdp_enabled be,
                   previous_mem_efficient = mem_efficient_sdp_enabled be,
                   previous_math = math_sdp_enabled be,
                   rotary_emb = GaudiRotaryEmbedding_init f (ed div nh) ed 10000 None,
                   training = True\<rparr>)"

section \<open>TPMultiHeadAttention: the constructor\<close>

record 'a TPMultiHeadAttention = "'a MultiHeadAttention" +
  pre_tp_nheads :: nat
  pre_tp_kvheads :: nat
  rank :: nat
  world_size :: nat

text \<open>
  \<^verbatim>\<open>TPMultiHeadAttention.__init__\<close>. \<open>initialized\<close> is \<^verbatim>\<open>torch.distributed.is_initialized()\<close> and
  \<open>rw\<close> is the pair \<^verbatim>\<open>distributed.rank_and_world(group)\<close>. The three assertions come first,
  in the order of the source; \<^verbatim>\<open>%\<close> by zero raises before its assertion is decided, and
  the second disjunct of the last assertion is evaluated only when the first one is false.
  Then the base constructor runs with the local head counts, and the original counts, the
  rank and the world size are recorded.
\<close>

definition TPMultiHeadAttention_init ::
  "'a fp \<Rightarrow> sdp_backends \<Rightarrow> bool \<Rightarrow> nat \<times> nat \<Rightarrow> nat \<Rightarrow> nat \<Rightarrow> nat \<Rightarrow> nat \<Rightarrow> nat \<Rightarrow>
     real option \<Rightarrow> bool \<Rightarrow> 'a position_encoder option \<Rightarrow> error + 'a TPMultiHeadAttention" where
  "TPMultiHeadAttention_init f be initialized rw ed ekq ev nh kvh p ub pe =
     (if \<not> initialized then Inl (AssertionError [])
      else let rk = fst rw; ws = snd rw;
               construct =
                 ebind (MultiHeadAttention_init f be ed ekq ev (nh div ws)
                          (if kvh \<ge> ws then kvh div ws else 1) p ub pe)
                   (\<lambda>b. Inr (MultiHeadAttention.extend b
                               (TPMultiHeadAttention.fields nh kvh rk ws)))
           in if ws = 0 then Inl ZeroDivisionError
              else if nh mod ws \<noteq> 0
              then Inl (AssertionError ''The number of heads must be divisible by world size'')
              else if kvh \<ge> ws \<and> kvh mod ws = 0 then construct
              else if kvh < ws
              then (if kvh = 0 then Inl ZeroDivisionError
                    else if ws mod kvh = 0 then construct
                    else Inl (AssertionError ''the kv heads must be divisible by the world size or the world size must be divisible by kv heads''))
              else Inl (AssertionError ''the kv heads must be divisible by the world size or the world size must be divisible by kv heads''))"

text \<open>
  The invariant of the partition, in the words of the specification: the worker count
  divides the query head count, and it divides the KV head count or is divided by it.
\<close>

definition divisibility_invariant :: "nat \<Rightarrow> nat \<Rightarrow> nat \<Rightarrow> bool" where
  "divisibility_invariant nh kvh ws = (ws dvd nh \<and> (ws dvd kvh \<or> kvh dvd ws))"

text \<open>
  All workers of a group run the same constructor, each with its own rank: the list of
  their results, rank by rank.
\<close>

definition tp_group_init ::
  "'a fp \<Rightarrow> sdp_backends \<Rightarrow> nat \<Rightarrow> nat \<Rightarrow> nat \<Rightarrow> nat \<Rightarrow> nat \<Rightarrow> nat \<Rightarrow>
     real option \<Rightarrow> bool \<Rightarrow> 'a position_encoder option \<Rightarrow> (error + 'a TPMultiHeadAttention) list" where
  "tp_group_init f be ws ed ekq ev nh kvh p ub pe =
     map (\<lambda>r. TPMultiHeadAttention_init f be True (r, ws) ed ekq ev nh kvh p ub pe) [0 ..< ws]"

section \<open>MultiHeadAttention.forward\<close>

text \<open>
  The method is one function in the source; here its blocks are separate definitions, in
  the order in which they run, named by their lines in the source. Local variables that a
  branch may leave unassigned (\<^verbatim>\<open>keys\<close>, \<^verbatim>\<open>values\<close>) are options, and reading one that is
  unassigned raises.
\<close>

text \<open>\<^verbatim>\<open>batch_size, q_len, _ = q.size()\<close> and \<^verbatim>\<open>kv_len = k.size(1)\<close>.\<close>

definition size3 :: "'a tensor \<Rightarrow> error + (nat \<times> nat)" where
  "size3 q =
     (case shape q of
        [b, l, e] \<Rightarrow> Inr (b, l)
      | _ \<Rightarrow> Inl (ValueError ''wrong number of values to unpack''))"

definition size1 :: "'a tensor \<Rightarrow> error + nat" where
  "size1 k =
     (if 1 < length (shape k) then Inr (shape k ! 1)
      else Inl (IndexError ''Dimension out of range''))"

text \<open>
  The projection of the key and value sources (the first statements under
  \<^verbatim>\<open>if is_self or past_key_value_state is None\<close> in both device branches).
\<close>

definition project_kv ::
  "'a fp \<Rightarrow> ('a, 'z) MultiHeadAttention_scheme \<Rightarrow> nat \<Rightarrow> nat \<Rightarrow> 'a tensor \<Rightarrow> 'a tensor \<Rightarrow>
     error + ('a tensor \<times> 'a tensor)" where
  "project_kv f self batch_size kv_len k v =
     ebind (linear_call f (key self) k) (\<lambda>k0.
     ebind (view [batch_size, kv_len, kvheads self, emb_kq_per_head self] k0) (\<lambda>keys.
     ebind (linear_call f (value' self) v) (\<lambda>v0.
     ebind (view [batch_size, kv_len, kvheads self, emb_v_per_head self] v0) (\<lambda>values.
     Inr (keys, values)))))"

text \<open>
  \<^verbatim>\<open>apply_gaudi_rope\<close>: the fused rotary kernel on the queries and on the keys, each with
  the tables given two leading axes.
\<close>

definition apply_gaudi_rope ::
  "'a kernels \<Rightarrow> 'a tensor \<Rightarrow> 'a tensor \<Rightarrow> 'a tensor \<Rightarrow> 'a tensor \<Rightarrow> int tensor \<Rightarrow>
     error + ('a tensor \<times> 'a tensor)" where
  "apply_gaudi_rope kn q k cs sn position_ids =
     ebind (unsqueeze 0 cs) (\<lambda>c1. ebind (unsqueeze 0 c1) (\<lambda>c2.
     ebind (unsqueeze 0 sn) (\<lambda>s1. ebind (unsqueeze 0 s1) (\<lambda>s2.
     ebind (FusedRoPE_apply kn q c2 s2 position_ids) (\<lambda>q'.
     ebind (FusedRoPE_apply kn k c2 s2 position_ids) (\<lambda>k'.
     Inr (q', k')))))))"

text \<open>\<^verbatim>\<open>torch.arange(0, n, dtype=torch.long).reshape(1, n)\<close>.\<close>

definition default_position_ids :: "nat \<Rightarrow> device \<Rightarrow> int tensor" where
  "default_position_ids n dev =
     \<lparr>shape = [1, n], elem = (\<lambda>idx. int (idx ! 1)), dtype = Int64, device = dev\<rparr>"

text \<open>
  Lines 189 to 218, the branch of the accelerator (\<^verbatim>\<open>queries.device.type == 'hpu'\<close>): the
  transposes of \<^verbatim>\<open>keys\<close> and \<^verbatim>\<open>values\<close> stand inside the conditional that assigns them, and
  the rotary tables of the module are requested when a position encoder is configured. The
  result holds the module (its tables may have been regenerated), the queries and the two
  locals \<^verbatim>\<open>keys\<close> and \<^verbatim>\<open>values\<close>.
\<close>

definition kv_hpu ::
  "'a fp \<Rightarrow> 'a kernels \<Rightarrow> ('a, 'z) MultiHeadAttention_scheme \<Rightarrow> nat \<Rightarrow> nat \<Rightarrow> 'a tensor \<Rightarrow>
     'a tensor \<Rightarrow> 'a tensor \<Rightarrow> int tensor option \<Rightarrow> ('a tensor \<times> 'a tensor) option \<Rightarrow> bool \<Rightarrow>
     error + (('a, 'z) MultiHeadAttention_scheme \<times> 'a tensor \<times>
              'a tensor option \<times> 'a tensor option)" where
  "kv_hpu f kn self batch_size kv_len queries0 k v position_ids past is_self =
     ebind (transpose_t 2 1 queries0) (\<lambda>queries.
     if is_self \<or> past = None
     then
       ebind (project_kv f self batch_size kv_len k v) (\<lambda>(keys0, values0).
       ebind (transpose_t 2 1 keys0) (\<lambda>keys.
       ebind (transpose_t 2 1 values0) (\<lambda>values.
       if position_encoder self \<noteq> None
       then
         ebind (GaudiRotaryEmbedding_forward f (rotary_emb self) values (shape keys ! 2))
           (\<lambda>(rot, cs, sn).
         ebind (apply_gaudi_rope kn queries keys cs sn
                  (case position_ids of
                     None \<Rightarrow> default_position_ids (shape keys ! 2) (device queries)
                   | Some ids \<Rightarrow> ids))
           (\<lambda>(queries', keys').
         Inr (self\<lparr>rotary_emb := rot\<rparr>, queries', Some keys', Some values)))
       else Inr (self, queries, Some keys, Some values))))
     else Inr (self, queries, None, None))"

text \<open>
  Lines 227 to 244, the branch of every other device: the transposes stand after the
  conditional and read \<^verbatim>\<open>keys\<close> and \<^verbatim>\<open>values\<close> whether or not they were assigned.
\<close>

definition kv_assign ::
  "'a fp \<Rightarrow> ('a, 'z) MultiHeadAttention_scheme \<Rightarrow> nat \<Rightarrow> nat \<Rightarrow> 'a tensor \<Rightarrow>
     'a tensor \<Rightarrow> 'a tensor \<Rightarrow> int tensor option \<Rightarrow> ('a tensor \<times> 'a tensor) option \<Rightarrow> bool \<Rightarrow>
     bool \<Rightarrow> error + ('a tensor \<times> 'a tensor option \<times> 'a tensor option)" where
  "kv_assign f self batch_size kv_len queries k v position_ids past use_cache is_self =
     (if is_self \<or> past = None
      then
        ebind (project_kv f self batch_size kv_len k v) (\<lambda>(keys, values).
        case position_encoder self of
          None \<Rightarrow> Inr (queries, Some keys, Some values)
        | Some pe \<Rightarrow>
            ebind (adjusted_qk pe queries keys position_ids past use_cache)
              (\<lambda>(queries', keys'). Inr (queries', Some keys', Some values)))
      else Inr (queries, None, None))"

definition kv_other ::
  "'a fp \<Rightarrow> ('a, 'z) MultiHeadAttention_scheme \<Rightarrow> nat \<Rightarrow> nat \<Rightarrow> 'a tensor \<Rightarrow>
     'a tensor \<Rightarrow> 'a tensor \<Rightarrow> int tensor option \<Rightarrow> ('a tensor \<times> 'a tensor) option \<Rightarrow> bool \<Rightarrow>
     bool \<Rightarrow> error + (('a, 'z) MultiHeadAttention_scheme \<times> 'a tensor \<times>
                      'a tensor option \<times> 'a tensor option)" where
  "kv_other f self batch_size kv_len queries0 k v position_ids past use_cache is_self =
     ebind (kv_assign f self batch_size kv_len queries0 k v position_ids past use_cache is_self)
       (\<lambda>(queries1, keys0, values0).
     ebind (transpose_t 2 1 queries1) (\<lambda>queries.
     ebind (read_local ''keys'' keys0) (\<lambda>keys1.
     ebind (transpose_t 2 1 keys1) (\<lambda>keys.
     ebind (read_local ''values'' values0) (\<lambda>values1.
     ebind (transpose_t 2 1 values1) (\<lambda>values.
     Inr (self, queries, Some keys, Some values)))))))"

text \<open>
  Lines 179 to 244: the sizes, the query projection, and the branch of the device. The
  result also holds \<^verbatim>\<open>batch_size\<close> and \<^verbatim>\<open>q_len\<close>, which the end of the method uses.
\<close>

definition qkv_stage ::
  "'a fp \<Rightarrow> 'a kernels \<Rightarrow> ('a, 'z) MultiHeadAttention_scheme \<Rightarrow> 'a tensor \<Rightarrow> 'a tensor \<Rightarrow>
     'a tensor \<Rightarrow> int tensor option \<Rightarrow> ('a tensor \<times> 'a tensor) option \<Rightarrow> bool \<Rightarrow> bool \<Rightarrow>
     error + (('a, 'z) MultiHeadAttention_scheme \<times> nat \<times> nat \<times> 'a tensor \<times>
              'a tensor option \<times> 'a tensor option)" where
  "qkv_stage f kn self q k v position_ids past use_cache is_self =
     ebind (size3 q) (\<lambda>(batch_size, q_len).
     ebind (size1 k) (\<lambda>kv_len.
     ebind (linear_call f (query self) q) (\<lambda>q0.
     ebind (view [batch_size, q_len, nheads self, emb_kq_per_head self] q0) (\<lambda>queries.
     ebind (if device queries = HPU
            then kv_hpu f kn self batch_size kv_len queries k v position_ids past is_self
            else kv_other f self batch_size kv_len queries k v position_ids past use_cache
                   is_self)
       (\<lambda>(self', queries', keys, values).
     Inr (self', batch_size, q_len, queries', keys, values))))))"

text \<open>
  Lines 247 to 258: with \<^verbatim>\<open>use_cache\<close> and a prior cache whose key tensor has elements,
  self-attention concatenates along axis 2 and cross-attention takes the cached pair.
\<close>

definition cache_stage ::
  "'a tensor option \<Rightarrow> 'a tensor option \<Rightarrow> ('a tensor \<times> 'a tensor) option \<Rightarrow> bool \<Rightarrow> bool \<Rightarrow>
     error + ('a tensor option \<times> 'a tensor option)" where
  "cache_stage keys values past use_cache is_self =
     (case past of
        None \<Rightarrow> Inr (keys, values)
      | Some (pk, pv) \<Rightarrow>
          if use_cache \<and> numel pk > 0
          then (if is_self
                then ebind (read_local ''keys'' keys) (\<lambda>ks.
                     ebind (cat pk ks 2) (\<lambda>keys'.
                     ebind (read_local ''values'' values) (\<lambda>vs.
                     ebind (cat pv vs 2) (\<lambda>values'.
                     Inr (Some keys', Some values')))))
                else Inr (Some pk, Some pv))
          else Inr (keys, values))"

text \<open>
  Lines 264 and 265: \<^verbatim>\<open>while len(mask.size()) != 4: mask = mask.unsqueeze(1)\<close>. The loop need
  not terminate, so its result is an option: \<open>None\<close> when it runs forever.
\<close>

partial_function (option) mask_loop :: "'a tensor \<Rightarrow> (error + 'a tensor) option" where
  "mask_loop m =
     (if length (shape m) \<noteq> 4
      then (case unsqueeze 1 m of
              Inl e \<Rightarrow> Some (Inl e)
            | Inr m' \<Rightarrow> mask_loop m')
      else Some (Inr m))"

text \<open>
  Lines 274 to 284: the expansion of the KV heads. \<^verbatim>\<open>nheads // kvheads\<close> is computed by the
  caller, which raises when \<^verbatim>\<open>kvheads\<close> is zero.
\<close>

definition expand_heads :: "nat \<Rightarrow> 'a tensor \<Rightarrow> error + 'a tensor" where
  "expand_heads expansion t =
     ebind (unsqueeze 2 t) (\<lambda>t1.
     ebind (expand [-1, -1, int expansion, -1, -1] t1) (\<lambda>t2.
     flatten 1 2 t2))"

definition expand_kv ::
  "nat \<Rightarrow> 'a tensor option \<Rightarrow> 'a tensor option \<Rightarrow> error + ('a tensor \<times> 'a tensor)" where
  "expand_kv expansion keys values =
     (if expansion \<noteq> 1
      then ebind (read_local ''keys'' keys) (\<lambda>ks.
           ebind (expand_heads expansion ks) (\<lambda>keys_e.
           ebind (read_local ''values'' values) (\<lambda>vs.
           ebind (expand_heads expansion vs) (\<lambda>values_e.
           Inr (keys_e, values_e)))))
      else ebind (read_local ''keys'' keys) (\<lambda>keys_e.
           ebind (read_local ''values'' values) (\<lambda>values_e.
           Inr (keys_e, values_e))))"

text \<open>
  Lines 286 to 326: exactly one attention kernel runs, the fused kernel on the accelerator
  and the library kernel elsewhere, with dropout only in training mode. The switches of
  \<^verbatim>\<open>torch.backends.cuda\<close> that the source sets around the library kernel select its backend
  from the algorithm hint; they reach the kernel as that hint.
\<close>

definition dispatch ::
  "'a kernels \<Rightarrow> ('a, 'z) MultiHeadAttention_scheme \<Rightarrow> 'a tensor \<Rightarrow> 'a tensor \<Rightarrow> 'a tensor \<Rightarrow>
     'a tensor option \<Rightarrow> string option \<Rightarrow> bool \<Rightarrow> error + 'a tensor" where
  "dispatch kn self queries keys_e values_e attn_mask attn_algorithm is_causal_mask =
     (if device queries = HPU
      then FusedSDPA_apply kn queries keys_e values_e attn_mask
             (if training self then p_dropout self else 0) is_causal_mask
      else scaled_dot_product_attention kn attn_algorithm queries keys_e values_e attn_mask
             (if training self then p_dropout self else 0) is_causal_mask)"

text \<open>
  Lines 329 to 344: the heads are recombined, the output projection is applied, and the
  result is the output, paired with \<^verbatim>\<open>(keys, values)\<close> when \<^verbatim>\<open>use_cache\<close> is set.
\<close>

definition output_stage ::
  "'a fp \<Rightarrow> ('a, 'z) MultiHeadAttention_scheme \<Rightarrow> nat \<Rightarrow> nat \<Rightarrow> 'a tensor \<Rightarrow>
     'a tensor option \<Rightarrow> 'a tensor option \<Rightarrow> bool \<Rightarrow>
     error + (('a, 'z) MultiHeadAttention_scheme \<times> 'a tensor \<times> ('a tensor \<times> 'a tensor) option)" where
  "output_stage f self batch_size q_len attn keys values use_cache =
     ebind (transpose_t 2 1 attn) (\<lambda>attn1.
     ebind (view [batch_size, q_len, nheads self * emb_v_per_head self] attn1) (\<lambda>attn2.
     ebind (linear_call f (dense self) attn2) (\<lambda>out.
     if use_cache
     then ebind (read_local ''keys'' keys) (\<lambda>ks.
          ebind (read_local ''values'' values) (\<lambda>vs.
          Inr (self, out, Some (ks, vs))))
     else Inr (self, out, None))))"

text \<open>
  Lines 267 to 344: the mask adjusted by the position encoder, the expansion of the KV
  heads, the kernel, and the output.
\<close>

definition attend ::
  "'a fp \<Rightarrow> 'a kernels \<Rightarrow> ('a, 'z) MultiHeadAttention_scheme \<Rightarrow> nat \<Rightarrow> nat \<Rightarrow> 'a tensor \<Rightarrow>
     'a tensor option \<Rightarrow> 'a tensor option \<Rightarrow> 'a tensor option \<Rightarrow> string option \<Rightarrow>
     ('a tensor \<times> 'a tensor) option \<Rightarrow> bool \<Rightarrow> bool \<Rightarrow>
     error + (('a, 'z) MultiHeadAttention_scheme \<times> 'a tensor \<times> ('a tensor \<times> 'a tensor) option)" where
  "attend f kn self batch_size q_len queries keys values msk attn_algorithm past use_cache
          is_causal_mask =
     ebind (case position_encoder self of
              Some pe \<Rightarrow> ebind (read_local ''keys'' keys) (\<lambda>ks.
                           adjusted_mask pe msk queries ks past use_cache)
            | None \<Rightarrow> Inr msk) (\<lambda>attn_mask.
     if kvheads self = 0 then Inl ZeroDivisionError
     else
       ebind (expand_kv (nheads self div kvheads self) keys values) (\<lambda>(keys_e, values_e).
       ebind (dispatch kn self queries keys_e values_e attn_mask attn_algorithm is_causal_mask)
         (\<lambda>attn.
       output_stage f self batch_size q_len attn keys values use_cache)))"

text \<open>
  The whole method. The result is \<open>None\<close> when the mask loop does not terminate,
  \<open>Some (Inl e)\<close> when the call raises \<open>e\<close>, and otherwise the module, the output and the
  cache (\<open>None\<close> without \<^verbatim>\<open>use_cache\<close>).
\<close>

definition MultiHeadAttention_forward ::
  "'a fp \<Rightarrow> 'a kernels \<Rightarrow> ('a, 'z) MultiHeadAttention_scheme \<Rightarrow> 'a tensor \<Rightarrow> 'a tensor \<Rightarrow>
     'a tensor \<Rightarrow> 'a tensor option \<Rightarrow> int tensor option \<Rightarrow> string option \<Rightarrow>
     ('a tensor \<times> 'a tensor) option \<Rightarrow> bool \<Rightarrow> bool \<Rightarrow> bool \<Rightarrow>
     (error + (('a, 'z) MultiHeadAttention_scheme \<times> 'a tensor \<times> ('a tensor \<times> 'a tensor) option))
       option" where
  "MultiHeadAttention_forward f kn self q k v msk position_ids attn_algorithm past use_cache
                              is_self is_causal_mask =
     (case ebind (qkv_stage f kn self q k v position_ids past use_cache is_self)
             (\<lambda>(self', batch_size, q_len, queries, keys, values).
                ebind (cache_stage keys values past use_cache is_self) (\<lambda>(keys', values').
                Inr (self', batch_size, q_len, queries, keys', values'))) of
        Inl e \<Rightarrow> Some (Inl e)
      | Inr (self', batch_size, q_len, queries, keys, values) \<Rightarrow>
          (case msk of
             None \<Rightarrow>
               Some (attend f kn self' batch_size q_len queries keys values None
                       attn_algorithm past use_cache is_causal_mask)
           | Some m \<Rightarrow>
               (case mask_loop m of
                  None \<Rightarrow> None
                | Some (Inl e) \<Rightarrow> Some (Inl e)
                | Some (Inr m') \<Rightarrow>
                    Some (attend f kn self' batch_size q_len queries keys values (Some m')
                            attn_algorithm past use_cache is_causal_mask))))"

section \<open>TPMultiHeadAttention.forward\<close>

text \<open>
  The two collective operations of the tensor parallel region, which belong to another
  module: the copy of an input into the region and the reduction of a result out of it.
\<close>

record 'a collectives =
  copy_to_tensor_model_parallel_region :: "'a tensor \<Rightarrow> 'a tensor"
  reduce_from_tensor_model_parallel_region :: "'a tensor \<Rightarrow> 'a tensor"

text \<open>
  \<^verbatim>\<open>TPMultiHeadAttention.forward\<close>: the three inputs are copied into the region, the forward
  pass of the base class runs on this worker's module, and only the output is reduced:
  with \<^verbatim>\<open>use_cache\<close> the result is \<^verbatim>\<open>(reduce(out_par[0]), out_par[1])\<close>, otherwise
  \<^verbatim>\<open>reduce(out_par)\<close>.
\<close>

definition TPMultiHeadAttention_forward ::
  "'a collectives \<Rightarrow> 'a fp \<Rightarrow> 'a kernels \<Rightarrow> ('a, 'z) TPMultiHeadAttention_scheme \<Rightarrow>
     'a tensor \<Rightarrow> 'a tensor \<Rightarrow> 'a tensor \<Rightarrow> 'a tensor option \<Rightarrow> int tensor option \<Rightarrow>
     string option \<Rightarrow> ('a tensor \<times> 'a tensor) option \<Rightarrow> bool \<Rightarrow> bool \<Rightarrow> bool \<Rightarrow>
     (error + (('a, 'z) TPMultiHeadAttention_scheme \<times> 'a tensor \<times> ('a tensor \<times> 'a tensor) option))
       option" where
  "TPMultiHeadAttention_forward cl f kn self q k v msk position_ids attn_algorithm past
                                use_cache is_self is_causal_mask =
     (let q_par = copy_to_tensor_model_parallel_region cl q;
          k_par = copy_to_tensor_model_parallel_region cl k;
          v_par = copy_to_tensor_model_parallel_region cl v
      in case MultiHeadAttention_forward f kn self q_par k_par v_par msk position_ids
                attn_algorithm past use_cache is_self is_causal_mask of
           None \<Rightarrow> None
         | Some (Inl e) \<Rightarrow> Some (Inl e)
         | Some (Inr (self', out_par, cache)) \<Rightarrow>
             if use_cache
             then Some (Inr (self', reduce_from_tensor_model_parallel_region cl out_par, cache))
             else Some (Inr (self', reduce_from_tensor_model_parallel_region cl out_par, None)))"

text \<open>
  Modelled from the spec: the collective operations are not among the sources. The
  specification gives them as \<^verbatim>\<open>partition(tensor)\<close>, under which each worker receives the full
  tensor value, and \<^verbatim>\<open>reduce(tensor)\<close>, a sum-reduction across workers. For the worker of rank
  \<open>r\<close> in a group whose workers contribute the tensors \<open>outs\<close>, the reduction of its
  contribution \<open>t\<close> is the elementwise sum, in rank order, of \<open>outs\<close> with \<open>t\<close> in place \<open>r\<close>.
\<close>

definition tensor_add :: "'a fp \<Rightarrow> 'a tensor \<Rightarrow> 'a tensor \<Rightarrow> 'a tensor" where
  "tensor_add f a b = a\<lparr>elem := (\<lambda>idx. fadd f (elem a idx) (elem b idx))\<rparr>"

definition all_reduce_sum :: "'a fp \<Rightarrow> 'a tensor list \<Rightarrow> 'a tensor" where
  "all_reduce_sum f ts = foldl (tensor_add f) (hd ts) (tl ts)"

definition group_collectives :: "'a fp \<Rightarrow> 'a tensor list \<Rightarrow> nat \<Rightarrow> 'a collectives" where
  "group_collectives f outs r =
     \<lparr>copy_to_tensor_model_parallel_region = (\<lambda>t. t),
      reduce_from_tensor_model_parallel_region = (\<lambda>t. all_reduce_sum f (outs[r := t]))\<rparr>"

section \<open>TPMultiHeadAttention.load_weights\<close>

text \<open>
  The weight mapping is a dictionary from names to tensors, here the list of its items
  in insertion order (the names are distinct). Two methods of the base class \<^verbatim>\<open>TPModule\<close>,
  which is not among the sources, are parameters of \<^verbatim>\<open>load_weights\<close>:
  \<^verbatim>\<open>_get_sd_weight(tensor_values, used_keys, parts)\<close>, which returns a tensor of the mapping and
  adds names to the set \<^verbatim>\<open>used_keys\<close> (it returns the set as it leaves it), and
  \<^verbatim>\<open>sharded_copy(param, tensor_value, dim, max_partition_sizes, ...)\<close>, which writes this
  worker's slice of a tensor into a parameter (it returns the new value of the
  parameter). The last argument of \<^verbatim>\<open>sharded_copy\<close> is given in one call only and is an
  option.
\<close>

type_synonym 'a state_dict = "(string \<times> 'a tensor) list"

type_synonym 'a get_sd_weight =
  "'a state_dict \<Rightarrow> string set \<Rightarrow> string list \<Rightarrow> error + ('a tensor \<times> string set)"

type_synonym ('a, 'z) sharded_copy =
  "('a, 'z) TPMultiHeadAttention_scheme \<Rightarrow> 'a tensor option \<Rightarrow> 'a tensor \<Rightarrow> nat \<Rightarrow> nat list \<Rightarrow>
     bool option \<Rightarrow> error + 'a tensor"

record 'a grabbed =
  query_weight :: "'a tensor"
  key_weight :: "'a tensor"
  value_weight :: "'a tensor"
  dense_weight :: "'a tensor"
  grabbed_biases :: "('a tensor \<times> 'a tensor \<times> 'a tensor \<times> 'a tensor) option"

text \<open>
  Step 1 of \<^verbatim>\<open>load_weights\<close>: the four weights, and the four biases when \<^verbatim>\<open>use_bias\<close> is set,
  are taken from the mapping one after the other; the set of used names passes from each
  lookup to the next.
\<close>

definition grab_weights ::
  "'a get_sd_weight \<Rightarrow> ('a, 'z) TPMultiHeadAttention_scheme \<Rightarrow> 'a state_dict \<Rightarrow>
     error + ('a grabbed \<times> string set)" where
  "grab_weights gsw self tensor_values =
     ebind (gsw tensor_values {} [''query'', ''weight'']) (\<lambda>(qw, u1).
     ebind (gsw tensor_values u1 [''key'', ''weight'']) (\<lambda>(kw, u2).
     ebind (gsw tensor_values u2 [''value'', ''weight'']) (\<lambda>(vw, u3).
     ebind (gsw tensor_values u3 [''dense'', ''weight'']) (\<lambda>(dw, u4).
     if use_bias self
     then
       ebind (gsw tensor_values u4 [''query'', ''bias'']) (\<lambda>(qb, u5).
       ebind (gsw tensor_values u5 [''key'', ''bias'']) (\<lambda>(kb, u6).
       ebind (gsw tensor_values u6 [''value'', ''bias'']) (\<lambda>(vb, u7).
       ebind (gsw tensor_values u7 [''dense'', ''bias'']) (\<lambda>(db, u8).
       Inr (\<lparr>query_weight = qw, key_weight = kw, value_weight = vw, dense_weight = dw,
             grabbed_biases = Some (qb, kb, vb, db)\<rparr>, u8)))))
     else Inr (\<lparr>query_weight = qw, key_weight = kw, value_weight = vw, dense_weight = dw,
                grabbed_biases = None\<rparr>, u4)))))"

text \<open>
  A statement that mutates the module and may raise: the result is the module as the
  statement leaves it together with the exception, if any. \<open>then_copy\<close> runs the next
  statement unless an exception is already on its way.
\<close>

definition then_copy :: "'s \<times> error option \<Rightarrow> ('s \<Rightarrow> error + 's) \<Rightarrow> 's \<times> error option" where
  "then_copy st step =
     (case snd st of
        Some e \<Rightarrow> st
      | None \<Rightarrow> (case step (fst st) of
                   Inl e \<Rightarrow> (fst st, Some e)
                 | Inr s' \<Rightarrow> (s', None)))"

text \<open>
  Step 3 of \<^verbatim>\<open>load_weights\<close>: the sharded copies, in the order of the source. Each replaces
  one parameter of the module. The bias copies read the biases that step 1 assigned under
  the same condition.
\<close>

definition copy_weights ::
  "('a, 'z) sharded_copy \<Rightarrow> ('a, 'z) TPMultiHeadAttention_scheme \<Rightarrow> 'a grabbed \<Rightarrow>
     ('a, 'z) TPMultiHeadAttention_scheme \<times> error option" where
  "copy_weights sc self0 g =
     (let st1 = then_copy (self0, None) (\<lambda>self.
            ebind (sc self (Some (weight (query self))) (query_weight g) 0
                     [pre_tp_nheads self] None)
              (\<lambda>w. Inr (self\<lparr>query := (query self)\<lparr>weight := w\<rparr>\<rparr>)));
          st2 = then_copy st1 (\<lambda>self.
            ebind (sc self (Some (weight (key self))) (key_weight g) 0
                     [pre_tp_kvheads self] None)
              (\<lambda>w. Inr (self\<lparr>key := (key self)\<lparr>weight := w\<rparr>\<rparr>)));
          st3 = then_copy st2 (\<lambda>self.
            ebind (sc self (Some (weight (value' self))) (value_weight g) 0
                     [pre_tp_kvheads self] None)
              (\<lambda>w. Inr (self\<lparr>value' := (value' self)\<lparr>weight := w\<rparr>\<rparr>)));
          st4 = then_copy st3 (\<lambda>self.
            ebind (sc self (Some (weight (dense self))) (dense_weight g) 1
                     [world_size self] None)
              (\<lambda>w. Inr (self\<lparr>dense := (dense self)\<lparr>weight := w\<rparr>\<rparr>)))
      in if use_bias self0
         then
           (case grabbed_biases g of
              None \<Rightarrow> then_copy st4 (\<lambda>self. Inl (UnboundLocalError ''query_bias''))
            | Some (qb, kb, vb, db) \<Rightarrow>
                (let st5 = then_copy st4 (\<lambda>self.
                       ebind (sc self (bias (query self)) qb 0 [pre_tp_nheads self] None)
                         (\<lambda>w. Inr (self\<lparr>query := (query self)\<lparr>bias := Some w\<rparr>\<rparr>)));
                     st6 = then_copy st5 (\<lambda>self.
                       ebind (sc self (bias (key self)) kb 0 [pre_tp_kvheads self] None)
                         (\<lambda>w. Inr (self\<lparr>key := (key self)\<lparr>bias := Some w\<rparr>\<rparr>)));
                     st7 = then_copy st6 (\<lambda>self.
                       ebind (sc self (bias (value' self)) vb 0 [pre_tp_kvheads self] None)
                         (\<lambda>w. Inr (self\<lparr>value' := (value' self)\<lparr>bias := Some w\<rparr>\<rparr>)))
                 in then_copy st7 (\<lambda>self.
                       ebind (sc self (bias (dense self)) db 1 [world_size self] (Some False))
                         (\<lambda>w. Inr (self\<lparr>dense := (dense self)\<lparr>bias := Some w\<rparr>\<rparr>)))))
         else st4)"

text \<open>
  \<^verbatim>\<open>load_weights\<close>: the lookups, then the check of the number of entries against 8 or 4,
  which raises with the names of the mapping that are not in \<^verbatim>\<open>used_keys\<close> (a set: the order
  in which the message joins them is not fixed), then the copies. The result is the module
  after the call and the exception, if one was raised.
\<close>

definition load_weights ::
  "'a get_sd_weight \<Rightarrow> ('a, 'z) sharded_copy \<Rightarrow> ('a, 'z) TPMultiHeadAttention_scheme \<Rightarrow>
     'a state_dict \<Rightarrow> ('a, 'z) TPMultiHeadAttention_scheme \<times> error option" where
  "load_weights gsw sc self tensor_values =
     (case grab_weights gsw self tensor_values of
        Inl e \<Rightarrow> (self, Some e)
      | Inr (g, used_keys) \<Rightarrow>
          if length tensor_values > (if use_bias self then 8 else 4)
          then (self, Some (AttributeError (set (map fst tensor_values) - used_keys)))
          else copy_weights sc self g)"

text \<open>
  Modelled from the spec: \<^verbatim>\<open>_get_sd_weight\<close> is not among the sources. The specification says
  that \<^verbatim>\<open>load_weights\<close> extracts the projection weights and biases from the mapping by name
  suffix, and that names follow the convention \<^verbatim>\<open><component>.<weight|bias>\<close>. Here an entry
  matches when its name ends with the parts joined by a dot; the matching name is added to
  the used names. The specification names no outcome for a lookup that matches no entry,
  or more than one: here it raises.
\<close>

fun join_dot :: "string list \<Rightarrow> string" where
  "join_dot [] = []"
| "join_dot [x] = x"
| "join_dot (x # y # ys) = x @ ''.'' @ join_dot (y # ys)"

definition endswith :: "string \<Rightarrow> string \<Rightarrow> bool" where
  "endswith s suf = (length suf \<le> length s \<and> drop (length s - length suf) s = suf)"

definition get_sd_weight_by_suffix :: "'a get_sd_weight" where
  "get_sd_weight_by_suffix tensor_values used_keys parts =
     (case filter (\<lambda>(n, t). endswith n (join_dot parts)) tensor_values of
        [] \<Rightarrow> Inl (ValueError ''Weight not found'')
      | [(n, t)] \<Rightarrow> Inr (t, insert n used_keys)
      | _ \<Rightarrow> Inl (ValueError ''Conflicting weights''))"

section \<open>The cache block on a heap of tensors\<close>

text \<open>
  For the question which tensors a call writes, tensors are objects on a heap: a heap is
  the list of the tensors allocated so far, and a reference is a position in it. The
  operations of the library that the cache block uses do not write to the tensors they
  are given: \<^verbatim>\<open>torch.cat\<close> returns a new tensor, which is allocated at the end of the heap.
\<close>

type_synonym ref = nat

type_synonym 'a heap = "'a tensor list"

definition alloc :: "'a heap \<Rightarrow> 'a tensor \<Rightarrow> 'a heap \<times> ref" where
  "alloc h t = (h @ [t], length h)"

definition deref :: "'a heap \<Rightarrow> ref \<Rightarrow> error + 'a tensor" where
  "deref h r = (if r < length h then Inr (h ! r) else Inl (RuntimeError ''dangling reference''))"

definition cat_heap :: "'a heap \<Rightarrow> ref \<Rightarrow> ref \<Rightarrow> nat \<Rightarrow> error + ('a heap \<times> ref)" where
  "cat_heap h a b d =
     ebind (deref h a) (\<lambda>ta.
     ebind (deref h b) (\<lambda>tb.
     ebind (cat ta tb d) (\<lambda>t. Inr (alloc h t))))"

text \<open>
  Lines 247 to 258 on references: self-attention binds \<^verbatim>\<open>keys\<close> and \<^verbatim>\<open>values\<close> to the two
  new tensors, cross-attention binds them to the tensors of the prior cache themselves.
  The references that the block leaves in \<^verbatim>\<open>keys\<close> and \<^verbatim>\<open>values\<close> are the ones lines 340 to
  344 return as the cache.
\<close>

definition cache_stage_heap ::
  "'a heap \<Rightarrow> ref option \<Rightarrow> ref option \<Rightarrow> (ref \<times> ref) option \<Rightarrow> bool \<Rightarrow> bool \<Rightarrow>
     error + ('a heap \<times> ref option \<times> ref option)" where
  "cache_stage_heap h keys values past use_cache is_self =
     (case past of
        None \<Rightarrow> Inr (h, keys, values)
      | Some (pk, pv) \<Rightarrow>
          ebind (if use_cache then ebind (deref h pk) (\<lambda>t. Inr (numel t > 0)) else Inr False)
            (\<lambda>merge.
          if merge
          then (if is_self
                then ebind (read_local ''keys'' keys) (\<lambda>ks.
                     ebind (cat_heap h pk ks 2) (\<lambda>(h1, keys').
                     ebind (read_local ''values'' values) (\<lambda>vs.
                     ebind (cat_heap h1 pv vs 2) (\<lambda>(h2, values').
                     Inr (h2, Some keys', Some values')))))
                else Inr (h, Some pk, Some pv))
          else Inr (h, keys, values)))"

text \<open>What a heap holds behind optional references, for the comparison with \<open>cache_stage\<close>.\<close>

definition deref_opt :: "'a heap \<Rightarrow> ref option \<Rightarrow> 'a tensor option" where
  "deref_opt h r = map_option (\<lambda>a. h ! a) r"

section \<open>Auxiliary notions for the statements\<close>

text \<open>
  The two errors of the head-count assertions in \<^verbatim>\<open>TPMultiHeadAttention.__init__\<close>, told
  apart from every other exception by their messages.
\<close>

definition head_count_error :: "error + 'b \<Rightarrow> bool" where
  "head_count_error r =
     (r = Inl (AssertionError ''The number of heads must be divisible by world size'') \<or>
      r = Inl (AssertionError ''the kv heads must be divisible by the world size or the world size must be divisible by kv heads''))"

text \<open>The documented range of the dropout probability: absent, or within \<open>[0, 1]\<close>.\<close>

definition valid_dropout :: "real option \<Rightarrow> bool" where
  "valid_dropout p = (case p of None \<Rightarrow> True | Some x \<Rightarrow> 0 \<le> x \<and> x \<le> 1)"

text \<open>
  An instance of the numeric primitives over the natural numbers, on which the model runs
  on concrete inputs.
\<close>

definition nat_fp :: "nat fp" where
  "nat_fp =
     \<lparr>mac = (\<lambda>xs ws b. sum_list (map2 (*) xs ws) + (case b of None \<Rightarrow> 0 | Some c \<Rightarrow> c)),
      inv_freq_at = (\<lambda>bs dm k. Suc k),
      outer_at = (\<lambda>p x. p * x),
      fcos = (\<lambda>x. x),
      fsin = (\<lambda>x. Suc x),
      cast = (\<lambda>d x. x),
      fadd = (\<lambda>x y. x + y),
      init_at = (\<lambda>sh idx. ravel sh idx),
      default_dtype = Float32\<rparr>"

definition all_backends :: sdp_backends where
  "all_backends =
     \<lparr>flash_sdp_enabled = True, mem_efficient_sdp_enabled = True, math_sdp_enabled = True\<rparr>"

text \<open>
  \<open>n\<close> applications of \<^verbatim>\<open>unsqueeze(1)\<close> in one step: \<open>n\<close> axes of size 1 after the first
  axis, every element where it was.
\<close>

definition unsqueeze1_times :: "nat \<Rightarrow> 'a tensor \<Rightarrow> 'a tensor" where
  "unsqueeze1_times n m =
     m\<lparr>shape := take 1 (shape m) @ replicate n 1 @ drop 1 (shape m),
       elem := (\<lambda>idx. elem m (take 1 idx @ drop (Suc n) idx))\<rparr>"

text \<open>Tensors for concrete inputs: one value everywhere, on a given device.\<close>

definition full :: "nat list \<Rightarrow> 'a \<Rightarrow> device \<Rightarrow> 'a tensor" where
  "full sh c dev = \<lparr>shape = sh, elem = (\<lambda>idx. c), dtype = Float32, device = dev\<rparr>"

text \<open>
  Kernels for concrete runs. They compute the shape of the result only: the rotary kernel
  returns its input, and the attention kernels accept 4-dimensional queries, keys and
  values that agree on batch, heads, key length and head size, and return a tensor of the
  shape of the attention output.
\<close>

definition sdpa_shape :: "'a tensor \<Rightarrow> 'a tensor \<Rightarrow> 'a tensor \<Rightarrow> error + 'a tensor" where
  "sdpa_shape q k v =
     (case (shape q, shape k, shape v) of
        ([b, h, l, d], [b', h', s, d'], [b'', h'', s', dv]) \<Rightarrow>
          if b = b' \<and> b = b'' \<and> h = h' \<and> h = h'' \<and> d = d' \<and> s = s'
          then Inr (q\<lparr>shape := [b, h, l, dv]\<rparr>)
          else Inl (RuntimeError ''attention: shapes do not match'')
      | _ \<Rightarrow> Inl (RuntimeError ''attention: shapes do not match''))"

definition shape_kernels :: "'a kernels" where
  "shape_kernels =
     \<lparr>FusedRoPE_apply = (\<lambda>t c s p. Inr t),
      FusedSDPA_apply = (\<lambda>q k v m p c. sdpa_shape q k v),
      scaled_dot_product_attention = (\<lambda>a q k v m p c. sdpa_shape q k v)\<rparr>"

text \<open>
  What the statements about the cache ask of the two rotations that are not part of this
  module (the fused rotary kernel, and \<^verbatim>\<open>adjusted_qk\<close> of the configured position encoder):
  the rotated keys have the shape of the keys.
\<close>

definition rotation_keeps_shape ::
  "'a kernels \<Rightarrow> ('a, 'z) MultiHeadAttention_scheme \<Rightarrow> bool" where
  "rotation_keeps_shape kn self =
     ((\<forall>t c s p t'. FusedRoPE_apply kn t c s p = Inr t' \<longrightarrow> shape t' = shape t) \<and>
      (\<forall>pe q k pids past uc q' k'. position_encoder self = Some pe \<longrightarrow>
          adjusted_qk pe q k pids past uc = Inr (q', k') \<longrightarrow> shape k' = shape k))"

text \<open>The start of a generation session: the caller holds no cache, or an empty one.\<close>

definition no_prior_cache :: "('a tensor \<times> 'a tensor) option \<Rightarrow> bool" where
  "no_prior_cache past = (case past of None \<Rightarrow> True | Some (pk, pv) \<Rightarrow> numel pk = 0)"

text \<open>
  A module for concrete runs: embedding size 16, eight query heads and two KV heads of
  size 2, no bias, no dropout, no position encoder.
\<close>

definition demo_mha :: "nat MultiHeadAttention" where
  "demo_mha = projr (MultiHeadAttention_init nat_fp all_backends 16 2 2 8 2 None False None)"

text \<open>
  For concrete runs: a copy that takes the whole tensor, and the wrapper of rank 0 of 2
  workers over eight query heads and two KV heads.
\<close>

definition copy_whole :: "('a, 'z) sharded_copy" where
  "copy_whole self param tensor_value d max_partition_sizes flag = Inr tensor_value"

definition demo_tp :: "nat TPMultiHeadAttention" where
  "demo_tp = projr (TPMultiHeadAttention_init nat_fp all_backends True (0, 2) 16 2 2 8 2
                      None False None)"

text \<open>A weight mapping for concrete runs: the four projection weights of \<open>demo_tp\<close>.\<close>

definition demo_weights :: "nat state_dict" where
  "demo_weights =
     [(''query.weight'', full [16, 16] 1 CPU), (''key.weight'', full [4, 16] 2 CPU),
      (''value.weight'', full [4, 16] 3 CPU), (''dense.weight'', full [16, 16] 4 CPU)]"

section \<open>The constructor of the parallel wrapper\<close>

lemma mha_init_ok:
  "valid_dropout p \<Longrightarrow> 0 < nh \<Longrightarrow>
   \<exists>b. MultiHeadAttention_init f be ed ekq ev nh kvh p ub pe = Inr b \<and>
       nheads b = nh \<and> kvheads b = kvh"
  by (auto simp: MultiHeadAttention_init_def valid_dropout_def Let_def split: option.splits)

lemma tp_init_ok:
  assumes "0 < ws" "0 < kvh" "0 < nh" "valid_dropout p" "divisibility_invariant nh kvh ws"
  shows "\<exists>b. MultiHeadAttention_init f be ed ekq ev (nh div ws)
               (if ws \<le> kvh then kvh div ws else 1) p ub pe = Inr b \<and>
           nheads b = nh div ws \<and> kvheads b = (if ws \<le> kvh then kvh div ws else 1) \<and>
           (\<forall>rk. TPMultiHeadAttention_init f be True (rk, ws) ed ekq ev nh kvh p ub pe
             = Inr (MultiHeadAttention.extend b (TPMultiHeadAttention.fields nh kvh rk ws)))"
proof -
  from assms have "0 < nh div ws"
    by (auto simp: divisibility_invariant_def dvd_imp_le div_greater_zero_iff)
  from mha_init_ok[OF assms(4) this]
  obtain b where b:
     "MultiHeadAttention_init f be ed ekq ev (nh div ws)
        (if ws \<le> kvh then kvh div ws else 1) p ub pe = Inr b"
     "nheads b = nh div ws" "kvheads b = (if ws \<le> kvh then kvh div ws else 1)"
    by blast
  have "kvh < ws \<Longrightarrow> ws mod kvh = 0"
    using assms by (auto simp: divisibility_invariant_def dvd_eq_mod_eq_0 dest: dvd_imp_le)
  moreover have "ws \<le> kvh \<Longrightarrow> kvh mod ws = 0"
    using assms
    by (auto simp: divisibility_invariant_def dvd_eq_mod_eq_0 dest: dvd_imp_le dvd_antisym)
  moreover have "nh mod ws = 0"
    using assms by (auto simp: divisibility_invariant_def)
  ultimately have "\<forall>rk. TPMultiHeadAttention_init f be True (rk, ws) ed ekq ev nh kvh p ub pe
             = Inr (MultiHeadAttention.extend b (TPMultiHeadAttention.fields nh kvh rk ws))"
    using assms(1,2) b(1) by (auto simp: TPMultiHeadAttention_init_def Let_def ebind_def)
  with b show ?thesis by blast
qed

lemma sum_list_const: "sum_list (map (\<lambda>_. c) xs) = length xs * (c::nat)"
  by (induction xs) auto

lemma tp_group_heads:
  assumes "0 < ws" "0 < kvh" "0 < nh" "valid_dropout p" "divisibility_invariant nh kvh ws"
  shows "\<exists>objs. tp_group_init f be ws ed ekq ev nh kvh p ub pe = map Inr objs \<and>
           length objs = ws \<and>
           sum_list (map nheads objs) = nh \<and>
           sum_list (map kvheads objs) = (if ws \<le> kvh then kvh else ws)"
proof -
  from tp_init_ok[OF assms] obtain b where
    b: "nheads b = nh div ws" "kvheads b = (if ws \<le> kvh then kvh div ws else 1)"
       "\<And>rk. TPMultiHeadAttention_init f be True (rk, ws) ed ekq ev nh kvh p ub pe
             = Inr (MultiHeadAttention.extend b (TPMultiHeadAttention.fields nh kvh rk ws))"
    by blast
  let ?objs = "map (\<lambda>rk. MultiHeadAttention.extend b
                            (TPMultiHeadAttention.fields nh kvh rk ws)) [0 ..< ws]"
  have 1: "tp_group_init f be ws ed ekq ev nh kvh p ub pe = map Inr ?objs"
    by (simp add: tp_group_init_def b(3))
  have 2: "sum_list (map nheads ?objs) = nh"
    using assms
    by (simp add: o_def MultiHeadAttention.defs b sum_list_const divisibility_invariant_def)
  have "ws \<le> kvh \<Longrightarrow> ws dvd kvh"
    using assms by (auto simp: divisibility_invariant_def dest: dvd_imp_le dvd_antisym)
  then have 3: "sum_list (map kvheads ?objs) = (if ws \<le> kvh then kvh else ws)"
    using assms by (simp add: o_def MultiHeadAttention.defs b sum_list_const)
  show ?thesis using 1 2 3 by (intro exI[of _ ?objs]) simp
qed

text \<open>
  Claim C4, as amended. For positive head counts and worker count that satisfy the
  divisibility invariant (and a dropout probability in its documented range), every
  worker of the group constructs its wrapper, and the local query head counts sum to the
  global \<open>nheads\<close>. The local KV head counts sum to the global \<open>kvheads\<close> when there are at
  least as many KV heads as workers; when there are fewer, every worker holds one KV
  head, so the local counts sum to the worker count.
\<close>

theorem tp_group_local_heads_sum:
  assumes "0 < ws" "0 < kvh" "0 < nh" "valid_dropout p" "divisibility_invariant nh kvh ws"
  shows "\<exists>objs. tp_group_init f be ws ed ekq ev nh kvh p ub pe = map Inr objs \<and>
           length objs = ws \<and>
           sum_list (map nheads objs) = nh \<and>
           sum_list (map kvheads objs) = (if ws \<le> kvh then kvh else ws)"
  using assms by (rule tp_group_heads)

theorem tp_group_local_heads_sum_witness:
  "(0::nat) < 2 \<and> (0::nat) < 4 \<and> (0::nat) < 8 \<and> valid_dropout None \<and>
   divisibility_invariant 8 4 2 \<and>
   (\<exists>objs. tp_group_init nat_fp all_backends 2 16 2 2 8 4 None False None = map Inr objs \<and>
      length objs = 2 \<and> sum_list (map nheads objs) = 8 \<and> sum_list (map kvheads objs) = 4)"
proof -
  have i: "divisibility_invariant 8 4 2" by (simp add: divisibility_invariant_def)
  have v: "valid_dropout None" by (simp add: valid_dropout_def)
  from tp_group_local_heads_sum[of 2 4 8 None, OF _ _ _ v i,
      of nat_fp all_backends 16 2 2 False None]
  show ?thesis using i v by auto
qed

text \<open>
  The claim as stated fails for 8 query heads, 2 KV heads and 4 workers: the invariant
  holds, the four workers hold one KV head each, and the local counts sum to 4, not 2.
\<close>

theorem tp_group_kvheads_sum_counterexample:
  "divisibility_invariant 8 2 4 \<and>
   (\<exists>objs. tp_group_init nat_fp all_backends 4 16 2 2 8 2 None False None = map Inr objs \<and>
      sum_list (map nheads objs) = 8 \<and> sum_list (map kvheads objs) = 4 \<and>
      sum_list (map kvheads objs) \<noteq> 2)"
proof -
  have i: "divisibility_invariant 8 2 4" by (simp add: divisibility_invariant_def)
  from tp_group_heads[of 4 2 8 None, OF _ _ _ _ i, of nat_fp all_backends 16 2 2 False None]
  show ?thesis using i by (auto simp: valid_dropout_def)
qed

lemma dvd_cases:
  fixes ws kvh :: nat
  assumes "0 < ws" "0 < kvh"
  shows "(ws dvd kvh \<or> kvh dvd ws) \<longleftrightarrow>
         (ws \<le> kvh \<and> kvh mod ws = 0) \<or> (kvh < ws \<and> ws mod kvh = 0)"
  using assms by (metis dvd_imp_le dvd_eq_mod_eq_0 nat_less_le)

lemma tp_init_raises:
  assumes "initialized" "0 < ws" "0 < kvh"
  shows "head_count_error
           (TPMultiHeadAttention_init f be initialized (rk, ws) ed ekq ev nh kvh p ub pe)
         \<longleftrightarrow> \<not> divisibility_invariant nh kvh ws"
proof -
  have ne: "\<And>m. ebind (MultiHeadAttention_init f be ed ekq ev (nh div ws)
                  (if kvh \<ge> ws then kvh div ws else 1) p ub pe)
                  (\<lambda>b. Inr (MultiHeadAttention.extend b
                              (TPMultiHeadAttention.fields nh kvh rk ws)))
             \<noteq> Inl (AssertionError m)"
    by (auto simp: ebind_def MultiHeadAttention_init_def Let_def split: sum.splits if_splits)
  show ?thesis
    using assms dvd_cases[OF assms(2,3)] ne
    by (auto simp: TPMultiHeadAttention_init_def head_count_error_def
        divisibility_invariant_def Let_def dvd_eq_mod_eq_0)
qed

text \<open>
  Claim C5. With the distributed runtime initialised and positive worker and KV head
  counts, the constructor raises one of its two head-count assertion errors if and only
  if the divisibility invariant is violated. The error does not depend on any other
  argument: the assertions run before the base constructor. When the invariant holds (and
  the head count is positive and the dropout probability is in its documented range) the
  constructor returns the wrapper.
\<close>

theorem tp_init_configuration_error:
  assumes "initialized" "0 < ws" "0 < kvh"
  shows "(head_count_error
            (TPMultiHeadAttention_init f be initialized (rk, ws) ed ekq ev nh kvh p ub pe)
          \<longleftrightarrow> \<not> divisibility_invariant nh kvh ws) \<and>
         (divisibility_invariant nh kvh ws \<and> 0 < nh \<and> valid_dropout p \<longrightarrow>
            (\<exists>obj. TPMultiHeadAttention_init f be initialized (rk, ws) ed ekq ev nh kvh p ub pe
                     = Inr obj \<and>
                   nheads obj = nh div ws \<and>
                   kvheads obj = (if ws \<le> kvh then kvh div ws else 1) \<and>
                   pre_tp_nheads obj = nh \<and> pre_tp_kvheads obj = kvh \<and>
                   rank obj = rk \<and> world_size obj = ws))"
proof -
  have "\<exists>obj. TPMultiHeadAttention_init f be initialized (rk, ws) ed ekq ev nh kvh p ub pe
                     = Inr obj \<and>
                   nheads obj = nh div ws \<and>
                   kvheads obj = (if ws \<le> kvh then kvh div ws else 1) \<and>
                   pre_tp_nheads obj = nh \<and> pre_tp_kvheads obj = kvh \<and>
                   rank obj = rk \<and> world_size obj = ws"
    if h: "divisibility_invariant nh kvh ws" "0 < nh" "valid_dropout p"
  proof -
    from tp_init_ok[OF assms(2,3) h(2,3,1), of f be ed ekq ev ub pe]
    obtain b where b: "nheads b = nh div ws"
        "kvheads b = (if ws \<le> kvh then kvh div ws else 1)"
        "TPMultiHeadAttention_init f be True (rk, ws) ed ekq ev nh kvh p ub pe
           = Inr (MultiHeadAttention.extend b (TPMultiHeadAttention.fields nh kvh rk ws))"
      by blast
    show ?thesis
      using b assms(1)
      by (intro exI[of _ "MultiHeadAttention.extend b
                            (TPMultiHeadAttention.fields nh kvh rk ws)"])
         (simp add: MultiHeadAttention.defs TPMultiHeadAttention.defs)
  qed
  with tp_init_raises[OF assms] show ?thesis by blast
qed

theorem tp_init_configuration_error_witness:
  "True \<and> (0::nat) < 3 \<and> (0::nat) < 2 \<and> \<not> divisibility_invariant 8 2 3 \<and>
   head_count_error
     (TPMultiHeadAttention_init nat_fp all_backends True (0, 3) 16 2 2 8 2 None False None) \<and>
   divisibility_invariant 8 2 2 \<and> valid_dropout None \<and>
   (\<exists>obj. TPMultiHeadAttention_init nat_fp all_backends True (1, 2) 16 2 2 8 2 None False None
            = Inr obj \<and> nheads obj = 4 \<and> kvheads obj = 1 \<and> rank obj = 1)"
proof -
  have n: "\<not> divisibility_invariant 8 2 3" by (simp add: divisibility_invariant_def)
  have i: "divisibility_invariant 8 2 2" by (simp add: divisibility_invariant_def)
  have v: "valid_dropout None" by (simp add: valid_dropout_def)
  from tp_init_configuration_error[of True 3 2 nat_fp all_backends 0 16 2 2 8 None False None]
       tp_init_configuration_error[of True 2 2 nat_fp all_backends 1 16 2 2 8 None False None]
  show ?thesis using n i v by auto
qed

section \<open>The rotary embedding cache\<close>

lemma rotary_inv_set: "rotary_inv (set_cos_sin_cache f s n dev dt)"
  by (simp add: rotary_inv_def set_cos_sin_cache_def cos_sin_tables_def Let_def)

lemma rotary_inv_init: "rotary_inv (GaudiRotaryEmbedding_init f dm mp bs dev)"
  by (simp add: rotary_inv_def GaudiRotaryEmbedding_init_def cos_sin_tables_def Let_def)

lemma max_seq_len_set [simp]: "max_seq_len_cached (set_cos_sin_cache f s n dev dt) = n"
  by (simp add: set_cos_sin_cache_def Let_def)

lemma slice0_two_axes:
  assumes "length (shape t) = 2"
  shows "slice0 n t = Inr (t\<lparr>shape := [min n (hd (shape t)), shape t ! 1]\<rparr>)"
proof -
  from assms obtain a b where "shape t = [a, b]"
    by (cases "shape t"; simp) (metis length_0_conv length_Suc_conv)
  then show ?thesis by (simp add: slice0_def)
qed

lemma rotary_forward_eq:
  assumes "rotary_inv s"
  shows "GaudiRotaryEmbedding_forward f s x n =
     (let s' = (if max_seq_len_cached s < n
                then set_cos_sin_cache f s n (device x) (dtype x) else s)
      in Inr (s',
              to_dtype f (dtype x) ((cos_cached s')\<lparr>shape := [n, shape (cos_cached s') ! 1]\<rparr>),
              to_dtype f (dtype x) ((sin_cached s')\<lparr>shape := [n, shape (sin_cached s') ! 1]\<rparr>)))"
proof -
  let ?s' = "(if max_seq_len_cached s < n
              then set_cos_sin_cache f s n (device x) (dtype x) else s)"
  have i: "rotary_inv ?s'" using assms by (simp add: rotary_inv_set)
  have m: "n \<le> max_seq_len_cached ?s'" by simp
  from i have c: "slice0 n (cos_cached ?s')
      = Inr ((cos_cached ?s')\<lparr>shape := [n, shape (cos_cached ?s') ! 1]\<rparr>)"
    using m by (subst slice0_two_axes) (auto simp: rotary_inv_def min_def)
  from i have d: "slice0 n (sin_cached ?s')
      = Inr ((sin_cached ?s')\<lparr>shape := [n, shape (sin_cached ?s') ! 1]\<rparr>)"
    using m by (subst slice0_two_axes) (auto simp: rotary_inv_def min_def)
  show ?thesis
    unfolding GaudiRotaryEmbedding_forward_def Let_def c d by simp
qed

text \<open>
  Claim C7. From any state of the rotary module that its constructor or an earlier
  request has produced (both tables 2-dimensional with \<^verbatim>\<open>max_seq_len_cached\<close> rows), and for
  any \<open>L1 < L2\<close>: the requests for \<open>L1\<close>, then \<open>L2\<close>, then \<open>L1\<close> again all return. The second
  request regenerates the tables for exactly \<open>L2\<close> positions when \<open>L2\<close> exceeds the cached
  length and leaves the module as it is otherwise; either way the cache then covers
  \<open>L2\<close>. The cached length never decreases. The third request, for a length that is covered,
  leaves the module unchanged, and its tables are the first \<open>L1\<close> rows of the tables
  cached by the second request (converted to the dtype of its input), hence the first
  \<open>L1\<close> rows of what the second request returned when both inputs have the same dtype.
\<close>

theorem rotary_cache_growth:
  assumes "rotary_inv s0" "L1 < L2"
  shows "\<exists>s1 c1 n1 s2 c2 n2 c3 n3.
           GaudiRotaryEmbedding_forward f s0 x1 L1 = Inr (s1, c1, n1) \<and>
           GaudiRotaryEmbedding_forward f s1 x2 L2 = Inr (s2, c2, n2) \<and>
           GaudiRotaryEmbedding_forward f s2 x3 L1 = Inr (s2, c3, n3) \<and>
           s2 = (if max_seq_len_cached s1 < L2
                 then set_cos_sin_cache f s1 L2 (device x2) (dtype x2) else s1) \<and>
           L2 \<le> max_seq_len_cached s2 \<and>
           hd (shape (cos_cached s2)) = max_seq_len_cached s2 \<and>
           hd (shape (sin_cached s2)) = max_seq_len_cached s2 \<and>
           max_seq_len_cached s0 \<le> max_seq_len_cached s1 \<and>
           max_seq_len_cached s1 \<le> max_seq_len_cached s2 \<and>
           hd (shape c2) = L2 \<and> hd (shape n2) = L2 \<and>
           hd (shape c3) = L1 \<and> hd (shape n3) = L1 \<and>
           (\<exists>c n. slice0 L1 (cos_cached s2) = Inr c \<and> slice0 L1 (sin_cached s2) = Inr n \<and>
                  c3 = to_dtype f (dtype x3) c \<and> n3 = to_dtype f (dtype x3) n) \<and>
           (dtype x3 = dtype x2 \<longrightarrow> slice0 L1 c2 = Inr c3 \<and> slice0 L1 n2 = Inr n3)"
proof -
  define s1 where "s1 = (if max_seq_len_cached s0 < L1
                         then set_cos_sin_cache f s0 L1 (device x1) (dtype x1) else s0)"
  define s2 where "s2 = (if max_seq_len_cached s1 < L2
                         then set_cos_sin_cache f s1 L2 (device x2) (dtype x2) else s1)"
  let ?cut = "\<lambda>n t. t\<lparr>shape := [n, shape t ! 1]\<rparr>"
  have i1: "rotary_inv s1" using assms(1) by (simp add: s1_def rotary_inv_set)
  have i2: "rotary_inv s2" using i1 by (simp add: s2_def rotary_inv_set)
  have m2: "L2 \<le> max_seq_len_cached s2" by (simp add: s2_def)
  have m02: "\<not> max_seq_len_cached s2 < L1" using m2 assms(2) by simp
  have f1: "GaudiRotaryEmbedding_forward f s0 x1 L1
      = Inr (s1, to_dtype f (dtype x1) (?cut L1 (cos_cached s1)),
                 to_dtype f (dtype x1) (?cut L1 (sin_cached s1)))"
    by (simp add: rotary_forward_eq[OF assms(1)] Let_def s1_def)
  have f2: "GaudiRotaryEmbedding_forward f s1 x2 L2
      = Inr (s2, to_dtype f (dtype x2) (?cut L2 (cos_cached s2)),
                 to_dtype f (dtype x2) (?cut L2 (sin_cached s2)))"
    by (simp add: rotary_forward_eq[OF i1] Let_def s2_def)
  have f3: "GaudiRotaryEmbedding_forward f s2 x3 L1
      = Inr (s2, to_dtype f (dtype x3) (?cut L1 (cos_cached s2)),
                 to_dtype f (dtype x3) (?cut L1 (sin_cached s2)))"
    using m02 by (simp add: rotary_forward_eq[OF i2] Let_def)
  have sl: "slice0 L1 (cos_cached s2) = Inr (?cut L1 (cos_cached s2))"
           "slice0 L1 (sin_cached s2) = Inr (?cut L1 (sin_cached s2))"
    using i2 m2 assms(2) by (auto simp: slice0_two_axes rotary_inv_def min_def)
  have sl2: "slice0 L1 (to_dtype f d (?cut L2 (cos_cached s2)))
              = Inr (to_dtype f d (?cut L1 (cos_cached s2)))"
            "slice0 L1 (to_dtype f d (?cut L2 (sin_cached s2)))
              = Inr (to_dtype f d (?cut L1 (sin_cached s2)))" for d
    using assms(2) by (simp_all add: slice0_def to_dtype_def min_def)
  have mono: "max_seq_len_cached s0 \<le> max_seq_len_cached s1"
             "max_seq_len_cached s1 \<le> max_seq_len_cached s2"
    by (simp_all add: s1_def s2_def)
  show ?thesis
    apply (rule exI[of _ s1])
    apply (rule exI[of _ "to_dtype f (dtype x1) (?cut L1 (cos_cached s1))"])
    apply (rule exI[of _ "to_dtype f (dtype x1) (?cut L1 (sin_cached s1))"])
    apply (rule exI[of _ s2])
    apply (rule exI[of _ "to_dtype f (dtype x2) (?cut L2 (cos_cached s2))"])
    apply (rule exI[of _ "to_dtype f (dtype x2) (?cut L2 (sin_cached s2))"])
    apply (rule exI[of _ "to_dtype f (dtype x3) (?cut L1 (cos_cached s2))"])
    apply (rule exI[of _ "to_dtype f (dtype x3) (?cut L1 (sin_cached s2))"])
    using f1 f2 f3 m2 mono sl sl2 i2
    apply (simp add: rotary_inv_def to_dtype_def)
    apply (simp add: s2_def)
    done
qed

theorem rotary_cache_growth_witness:
  "rotary_inv (GaudiRotaryEmbedding_init nat_fp 4 8 10000 None) \<and> (3::nat) < 12 \<and>
   (\<exists>s1 c1 n1 s2 c2 n2 c3 n3.
      GaudiRotaryEmbedding_forward nat_fp (GaudiRotaryEmbedding_init nat_fp 4 8 10000 None)
        (full [1, 2, 3, 4] 0 CPU) 3 = Inr (s1, c1, n1) \<and>
      GaudiRotaryEmbedding_forward nat_fp s1 (full [1, 2, 12, 4] 0 CPU) 12 = Inr (s2, c2, n2) \<and>
      GaudiRotaryEmbedding_forward nat_fp s2 (full [1, 2, 3, 4] 0 CPU) 3 = Inr (s2, c3, n3) \<and>
      12 \<le> max_seq_len_cached s2 \<and> hd (shape c3) = 3 \<and>
      slice0 3 c2 = Inr c3 \<and> slice0 3 n2 = Inr n3)"
proof -
  have d: "dtype (full [1, 2, 3, 4] (0::nat) CPU) = dtype (full [1, 2, 12, 4] (0::nat) CPU)"
    by (simp add: full_def)
  from rotary_cache_growth[of "GaudiRotaryEmbedding_init nat_fp 4 8 10000 None" 3 12 nat_fp
      "full [1, 2, 3, 4] 0 CPU" "full [1, 2, 12, 4] 0 CPU" "full [1, 2, 3, 4] 0 CPU"] d
  show ?thesis
    by (simp add: rotary_inv_init) blast
qed

section \<open>The normalisation of the mask\<close>

lemma rank_unsqueeze:
  "unsqueeze d m = Inr m' \<Longrightarrow> length (shape m') = Suc (length (shape m))"
  by (auto simp: unsqueeze_def split: if_splits)

lemma mask_loop_rank_le: "mask_loop m = Some r \<Longrightarrow> length (shape m) \<le> 4"
proof (rule mask_loop.raw_induct[where P = "\<lambda>m r. length (shape m) \<le> 4"])
  show "mask_loop m = Some r \<Longrightarrow> mask_loop m = Some r" .
next
  fix loop :: "'a tensor \<Rightarrow> (error + 'a tensor) option" and m r
  assume IH: "\<And>m r. loop m = Some r \<Longrightarrow> length (shape m) \<le> 4"
    and step: "(if length (shape m) \<noteq> 4
      then (case unsqueeze 1 m of Inl e \<Rightarrow> Some (Inl e) | Inr m' \<Rightarrow> loop m')
      else Some (Inr m)) = Some r"
  show "length (shape m) \<le> 4"
  proof (cases "length (shape m) = 4")
    case True then show ?thesis by simp
  next
    case False
    show ?thesis
    proof (cases "unsqueeze 1 m")
      case (Inl e)
      then show ?thesis by (auto simp: unsqueeze_def split: if_splits)
    next
      case (Inr m')
      with step False have "loop m' = Some r" by simp
      from IH[OF this] rank_unsqueeze[OF Inr] show ?thesis by simp
    qed
  qed
qed

lemma mask_loop_diverges: "4 < length (shape m) \<Longrightarrow> mask_loop m = None"
  using mask_loop_rank_le[of m] by (cases "mask_loop m") auto

lemma mask_loop_scalar:
  "shape m = [] \<Longrightarrow> mask_loop m = Some (Inl (IndexError ''Dimension out of range''))"
  by (subst mask_loop.simps) (simp add: unsqueeze_def)

lemma idx_skip:
  "take (Suc 0) (take (Suc 0) idx @ drop (Suc (Suc 0)) idx) @
   drop (Suc n) (take (Suc 0) idx @ drop (Suc (Suc 0)) idx)
   = take (Suc 0) idx @ drop (Suc (Suc n)) idx"
  by (cases idx) (auto simp: drop_Suc)

lemma unsqueeze1_times_Suc:
  assumes "0 < length (shape m)"
  shows "unsqueeze 1 (unsqueeze1_times n m) = Inr (unsqueeze1_times (Suc n) m)"
proof -
  from assms obtain a list where s: "shape m = a # list" by (cases "shape m") auto
  have e: "(\<lambda>idx. elem m (take (Suc 0) (take (Suc 0) idx @ drop (Suc (Suc 0)) idx) @
                 drop (Suc n) (take (Suc 0) idx @ drop (Suc (Suc 0)) idx)))
         = (\<lambda>idx. elem m (take (Suc 0) idx @ drop (Suc (Suc n)) idx))"
    by (simp only: idx_skip)
  show ?thesis
    using e by (simp add: unsqueeze_def unsqueeze1_times_def s del: take_append drop_append)
qed

lemma mask_loop_times:
  assumes "0 < length (shape m)" "length (shape m) + n \<le> 4"
  shows "mask_loop (unsqueeze1_times n m)
         = Some (Inr (unsqueeze1_times (4 - length (shape m)) m))"
  using assms
proof (induction "4 - (length (shape m) + n)" arbitrary: n)
  case 0
  then have "length (shape (unsqueeze1_times n m)) = 4" "n = 4 - length (shape m)"
    by (auto simp: unsqueeze1_times_def)
  then show ?case by (subst mask_loop.simps) simp
next
  case (Suc k)
  then have "length (shape (unsqueeze1_times n m)) \<noteq> 4"
    by (auto simp: unsqueeze1_times_def)
  moreover have "mask_loop (unsqueeze1_times (Suc n) m)
      = Some (Inr (unsqueeze1_times (4 - length (shape m)) m))"
    using Suc by (intro Suc(1)) auto
  ultimately show ?case
    using Suc(3) by (subst mask_loop.simps) (simp add: unsqueeze1_times_Suc del: One_nat_def)
qed

lemma mask_loop_normalizes:
  assumes "0 < length (shape m)" "length (shape m) \<le> 4"
  shows "mask_loop m = Some (Inr (unsqueeze1_times (4 - length (shape m)) m))"
  using mask_loop_times[of m 0] assms by (simp add: unsqueeze1_times_def)

text \<open>
  Claim C8, as amended. For every mask with one to four axes the loop terminates without
  raising and yields a 4-dimensional mask: the axes of the input with as many axes of
  size 1 inserted after the first one as are missing (a mask of shape
  \<open>[b, q, k]\<close> becomes \<open>[b, 1, q, k]\<close>), the same number of elements, the same dtype and
  device, and at every index the element the input has at the index without the inserted
  coordinates.
\<close>

theorem mask_normalization:
  assumes "1 \<le> length (shape m)" "length (shape m) \<le> 4"
  shows "\<exists>m'. mask_loop m = Some (Inr m') \<and>
           length (shape m') = 4 \<and>
           shape m' = take 1 (shape m) @ replicate (4 - length (shape m)) 1 @ drop 1 (shape m) \<and>
           (\<forall>idx. elem m' idx = elem m (take 1 idx @ drop (5 - length (shape m)) idx)) \<and>
           numel m' = numel m \<and> dtype m' = dtype m \<and> device m' = device m"
proof -
  have "prod_list (take 1 (shape m) @ replicate (4 - length (shape m)) 1 @ drop 1 (shape m))
        = prod_list (take 1 (shape m) @ drop 1 (shape m))"
    by (simp del: append_take_drop_id)
  then have n: "numel (unsqueeze1_times (4 - length (shape m)) m) = numel m"
    by (simp add: numel_def unsqueeze1_times_def)
  have "Suc (4 - length (shape m)) = 5 - length (shape m)"
    using assms by simp
  then have e: "elem (unsqueeze1_times (4 - length (shape m)) m) idx
      = elem m (take 1 idx @ drop (5 - length (shape m)) idx)" for idx
    by (simp add: unsqueeze1_times_def)
  have s: "shape (unsqueeze1_times (4 - length (shape m)) m)
      = take 1 (shape m) @ replicate (4 - length (shape m)) 1 @ drop 1 (shape m)"
     "dtype (unsqueeze1_times (4 - length (shape m)) m) = dtype m"
     "device (unsqueeze1_times (4 - length (shape m)) m) = device m"
    by (simp_all add: unsqueeze1_times_def)
  have l: "length (take 1 (shape m) @ replicate (4 - length (shape m)) 1 @ drop 1 (shape m)) = 4"
    using assms by (cases "shape m") auto
  have "mask_loop m = Some (Inr (unsqueeze1_times (4 - length (shape m)) m))"
    using assms by (intro mask_loop_normalizes) auto
  then show ?thesis
    using n e s l by (intro exI[of _ "unsqueeze1_times (4 - length (shape m)) m"]) simp
qed

theorem mask_normalization_witness:
  "1 \<le> length (shape (full [2, 3, 5] (0::nat) CPU)) \<and>
   length (shape (full [2, 3, 5] (0::nat) CPU)) \<le> 4 \<and>
   (\<exists>m'. mask_loop (full [2, 3, 5] (0::nat) CPU) = Some (Inr m') \<and>
      shape m' = [2, 1, 3, 5] \<and> numel m' = 30)"
  using mask_normalization[of "full [2, 3, 5] (0::nat) CPU"]
  by (auto simp: full_def numel_def)

text \<open>
  The claim as stated fails outside that range: on a mask with five axes the loop never
  terminates (every step adds an axis), and on a 0-dimensional mask \<^verbatim>\<open>unsqueeze(1)\<close>
  raises.
\<close>

theorem mask_normalization_counterexample:
  "mask_loop (full [1, 1, 1, 1, 1] (0::nat) CPU) = None \<and>
   mask_loop (full [] (0::nat) CPU) = Some (Inl (IndexError ''Dimension out of range''))"
  by (simp add: mask_loop_diverges mask_loop_scalar full_def)

section \<open>The forward pass: projections, cache and expansion\<close>

lemma ebind_Inr_iff: "(ebind m g = Inr y) = (\<exists>x. m = Inr x \<and> g x = Inr y)"
  by (cases m) (auto simp: ebind_def)

lemma view_Inr: "view s t = Inr t' \<Longrightarrow> shape t' = s \<and> device t' = device t"
  by (auto simp: view_def split: if_splits)

lemma transpose_Inr:
  "transpose_t d0 d1 t = Inr t' \<Longrightarrow> shape t' = swap d0 d1 (shape t) \<and> device t' = device t"
  by (auto simp: transpose_t_def split: if_splits)

lemma project_kv_Inr:
  assumes "project_kv f self b l k v = Inr (K, V)"
  shows "shape K = [b, l, kvheads self, emb_kq_per_head self] \<and>
     shape V = [b, l, kvheads self, emb_v_per_head self]"
  using assms unfolding project_kv_def
  by (auto simp: ebind_Inr_iff dest!: view_Inr)

lemma swap_21 [simp]: "swap 2 (Suc 0) [a, b, c, d] = [a, c, b, d]"
  by (simp add: swap_def)

lemma apply_gaudi_rope_Inr:
  assumes "apply_gaudi_rope kn q k cs sn pids = Inr (q', k')"
    and "\<forall>t c s p t'. FusedRoPE_apply kn t c s p = Inr t' \<longrightarrow> shape t' = shape t"
  shows "shape k' = shape k"
  using assms unfolding apply_gaudi_rope_def
  by (auto simp: ebind_Inr_iff)

lemma self_upd: "\<exists>r. self = self\<lparr>rotary_emb := r\<rparr>"
  by (rule exI[of _ "rotary_emb self"]) simp

lemma adjusted_qk_shape:
  "rotation_keeps_shape kn self \<Longrightarrow> position_encoder self = Some pe \<Longrightarrow>
   adjusted_qk pe q k pids past uc = Inr (q', k') \<Longrightarrow> shape k' = shape k"
  unfolding rotation_keeps_shape_def by blast

lemma rope_shape:
  "rotation_keeps_shape kn self \<Longrightarrow>
   apply_gaudi_rope kn q k cs sn pids = Inr (q', k') \<Longrightarrow> shape k' = shape k"
  unfolding rotation_keeps_shape_def by (blast intro: apply_gaudi_rope_Inr)

lemma kv_hpu_self:
  assumes "kv_hpu f kn self b l Q0 k v pids past True = Inr (self', Q, keys, values)"
    and "rotation_keeps_shape kn self"
  shows "\<exists>K V. keys = Some K \<and> values = Some V \<and>
           shape K = [b, kvheads self, l, emb_kq_per_head self] \<and>
           shape V = [b, kvheads self, l, emb_v_per_head self] \<and>
           (\<exists>r. self' = self\<lparr>rotary_emb := r\<rparr>)"
proof (cases "position_encoder self")
  case None
  with assms(1) show ?thesis
    unfolding kv_hpu_def
    by (auto simp: ebind_Inr_iff self_upd dest!: project_kv_Inr transpose_Inr)
next
  case (Some pe)
  with assms(1) show ?thesis
    unfolding kv_hpu_def
    by (auto simp: ebind_Inr_iff dest!: project_kv_Inr transpose_Inr rope_shape[OF assms(2)])
qed

lemma kv_other_self:
  assumes "kv_other f self b l Q0 k v pids past uc True = Inr (self', Q, keys, values)"
    and "rotation_keeps_shape kn self"
  shows "\<exists>K V. keys = Some K \<and> values = Some V \<and>
           shape K = [b, kvheads self, l, emb_kq_per_head self] \<and>
           shape V = [b, kvheads self, l, emb_v_per_head self] \<and>
           self' = self"
proof (cases "position_encoder self")
  case None
  with assms(1) show ?thesis
    unfolding kv_other_def kv_assign_def
    by (auto simp: ebind_Inr_iff read_local_def dest!: project_kv_Inr transpose_Inr)
next
  case (Some pe)
  with assms(1) show ?thesis
    unfolding kv_other_def kv_assign_def
    by (auto simp: ebind_Inr_iff read_local_def
          dest!: project_kv_Inr transpose_Inr adjusted_qk_shape[OF assms(2) Some])
qed


lemma size3_Inr: "size3 q = Inr (b, l) \<Longrightarrow> \<exists>e. shape q = [b, l, e]"
  by (auto simp: size3_def split: list.splits)

lemma size1_Inr: "size1 k = Inr l \<Longrightarrow> l = shape k ! 1 \<and> 1 < length (shape k)"
  by (auto simp: size1_def split: if_splits)

lemma qkv_stage_self:
  assumes "qkv_stage f kn self q k v pids past uc True = Inr (self', b, ql, Q, keys, values)"
    and "rotation_keeps_shape kn self"
  shows "\<exists>K V. keys = Some K \<and> values = Some V \<and>
           shape K = [b, kvheads self, shape k ! 1, emb_kq_per_head self] \<and>
           shape V = [b, kvheads self, shape k ! 1, emb_v_per_head self] \<and>
           (\<exists>r. self' = self\<lparr>rotary_emb := r\<rparr>) \<and> (\<exists>e. shape q = [b, ql, e])"
proof -
  from assms(1) have sq: "\<exists>e. shape q = [b, ql, e]"
    unfolding qkv_stage_def by (auto simp: ebind_Inr_iff dest!: size3_Inr)
  from assms(1) obtain Q0 where
    br: "(if device Q0 = HPU
            then kv_hpu f kn self b (shape k ! 1) Q0 k v pids past True
            else kv_other f self b (shape k ! 1) Q0 k v pids past uc True)
         = Inr (self', Q, keys, values)"
    unfolding qkv_stage_def
    by (auto simp: ebind_Inr_iff dest!: size1_Inr)
  show ?thesis
  proof (cases "device Q0 = HPU")
    case True
    with br kv_hpu_self[OF _ assms(2)] sq show ?thesis by simp
  next
    case False
    with br have "kv_other f self b (shape k ! 1) Q0 k v pids past uc True
         = Inr (self', Q, keys, values)" by simp
    from kv_other_self[OF this assms(2)] sq show ?thesis by (auto simp: self_upd)
  qed
qed

lemma cat_shape:
  assumes "cat a b d = Inr c" "shape a \<noteq> [0]" "shape b \<noteq> [0]"
  shows "shape c = (shape a)[d := shape a ! d + shape b ! d] \<and> d < length (shape a) \<and>
         length (shape a) = length (shape b) \<and> (shape a)[d := 0] = (shape b)[d := 0]"
  using assms by (auto simp: cat_def split: if_splits)

lemma cache_stage_self:
  assumes "cache_stage (Some K) (Some V) past uc True = Inr (keys', values')"
  shows "\<exists>K' V'. keys' = Some K' \<and> values' = Some V' \<and>
          (case past of
             None \<Rightarrow> K' = K \<and> V' = V
           | Some (pk, pv) \<Rightarrow>
               if uc \<and> 0 < numel pk then cat pk K 2 = Inr K' \<and> cat pv V 2 = Inr V'
               else K' = K \<and> V' = V)"
  using assms
  by (auto simp: cache_stage_def ebind_Inr_iff read_local_def split: option.splits if_splits)

lemma attend_cache:
  assumes "attend f kn self b ql Q keys values m alg past True causal = Inr (s, out, c)"
  shows "\<exists>K V. keys = Some K \<and> values = Some V \<and> c = Some (K, V) \<and> s = self"
  using assms unfolding attend_def output_stage_def
  by (auto simp: ebind_Inr_iff read_local_def split: if_splits option.splits)

lemma forward_Inr:
  assumes "MultiHeadAttention_forward f kn self q k v m pids alg past uc is_self causal
           = Some (Inr (s, out, c))"
  shows "\<exists>self' b ql Q keys values keys' values' m'.
           qkv_stage f kn self q k v pids past uc is_self = Inr (self', b, ql, Q, keys, values) \<and>
           cache_stage keys values past uc is_self = Inr (keys', values') \<and>
           attend f kn self' b ql Q keys' values' m' alg past uc causal = Inr (s, out, c)"
  using assms unfolding MultiHeadAttention_forward_def
  by (auto simp: ebind_Inr_iff split: sum.splits option.splits)


lemma rotation_keeps_shape_upd [simp]:
  "rotation_keeps_shape kn (self\<lparr>rotary_emb := r\<rparr>) = rotation_keeps_shape kn self"
  by (simp add: rotation_keeps_shape_def)

lemma forward_self_cache:
  assumes "MultiHeadAttention_forward f kn self q k v m pids alg past True True causal
           = Some (Inr (s, out, c))"
    and "rotation_keeps_shape kn self"
  shows "\<exists>K V K' V'. c = Some (K', V') \<and>
           shape K = [hd (shape q), kvheads self, shape k ! 1, emb_kq_per_head self] \<and>
           shape V = [hd (shape q), kvheads self, shape k ! 1, emb_v_per_head self] \<and>
           (case past of
              None \<Rightarrow> K' = K \<and> V' = V
            | Some (pk, pv) \<Rightarrow>
                if 0 < numel pk then cat pk K 2 = Inr K' \<and> cat pv V 2 = Inr V'
                else K' = K \<and> V' = V) \<and>
           (\<exists>r. s = self\<lparr>rotary_emb := r\<rparr>)"
proof -
  from forward_Inr[OF assms(1)] obtain self' b ql Q keys vals keys' vals' m' where
    q: "qkv_stage f kn self q k v pids past True True = Inr (self', b, ql, Q, keys, vals)"
    and c: "cache_stage keys vals past True True = Inr (keys', vals')"
    and a: "attend f kn self' b ql Q keys' vals' m' alg past True causal = Inr (s, out, c)"
    by blast
  from qkv_stage_self[OF q assms(2)] obtain K V r e where
    kv: "keys = Some K" "vals = Some V"
    and sk: "shape K = [b, kvheads self, shape k ! 1, emb_kq_per_head self]"
    and sv: "shape V = [b, kvheads self, shape k ! 1, emb_v_per_head self]"
    and se: "self' = self\<lparr>rotary_emb := r\<rparr>" and sq: "shape q = [b, ql, e]"
    by blast
  from c kv have c': "cache_stage (Some K) (Some V) past True True = Inr (keys', vals')"
    by simp
  from cache_stage_self[OF c'] obtain K' V' where
    kv': "keys' = Some K'" "vals' = Some V'"
    and cs: "(case past of
             None \<Rightarrow> K' = K \<and> V' = V
           | Some (pk, pv) \<Rightarrow>
               if True \<and> 0 < numel pk then cat pk K 2 = Inr K' \<and> cat pv V 2 = Inr V'
               else K' = K \<and> V' = V)"
    by blast
  from attend_cache[OF a] kv' have r: "c = Some (K', V')" "s = self'" by auto
  have 1: "shape K = [hd (shape q), kvheads self, shape k ! 1, emb_kq_per_head self]"
    using sk sq by simp
  have 2: "shape V = [hd (shape q), kvheads self, shape k ! 1, emb_v_per_head self]"
    using sv sq by simp
  have 3: "(case past of
              None \<Rightarrow> K' = K \<and> V' = V
            | Some (pk, pv) \<Rightarrow>
                if 0 < numel pk then cat pk K 2 = Inr K' \<and> cat pv V 2 = Inr V'
                else K' = K \<and> V' = V)"
    using cs by (cases past) auto
  have 4: "\<exists>r. s = self\<lparr>rotary_emb := r\<rparr>"
    using r(2) se by blast
  show ?thesis
    using r(1) 1 2 3 4 by blast
qed

lemmas forward_eval = MultiHeadAttention_forward_def qkv_stage_def kv_hpu_def kv_other_def
  kv_assign_def cache_stage_def attend_def dispatch_def output_stage_def
  expand_kv_def expand_heads_def project_kv_def size3_def size1_def linear_call_def view_def
  transpose_t_def unsqueeze_def cat_def expand_def flatten_def numel_def ebind_def
  read_local_def swap_def full_def shape_kernels_def sdpa_shape_def demo_mha_def
  MultiHeadAttention_init_def nn_Linear_def new_param_def nat_fp_def all_backends_def
  GaudiRotaryEmbedding_init_def cos_sin_tables_def Let_def

text \<open>
  Claim C1. The code does not do this on every device. With \<^verbatim>\<open>use_cache\<close>, cross-attention
  and a non-empty prior cache, the branch of the accelerator reaches the cache block and
  returns the prior pair itself; on any other device the call raises before that block,
  because \<^verbatim>\<open>keys = keys.transpose(2, 1)\<close> reads a variable that was never assigned. The two
  runs below differ in the device only.
\<close>

theorem cross_attention_cached_call:
  "MultiHeadAttention_forward nat_fp shape_kernels demo_mha
     (full [1, 2, 16] 1 CPU) (full [1, 3, 16] 1 CPU) (full [1, 3, 16] 1 CPU) None None None
     (Some (full [1, 2, 3, 2] 1 CPU, full [1, 2, 3, 2] 1 CPU)) True False False
   = Some (Inl (UnboundLocalError ''keys'')) \<and>
   (\<exists>s out. MultiHeadAttention_forward nat_fp shape_kernels demo_mha
     (full [1, 2, 16] 1 HPU) (full [1, 3, 16] 1 HPU) (full [1, 3, 16] 1 HPU) None None None
     (Some (full [1, 2, 3, 2] 1 HPU, full [1, 2, 3, 2] 1 HPU)) True False False
   = Some (Inr (s, out, Some (full [1, 2, 3, 2] 1 HPU, full [1, 2, 3, 2] 1 HPU))))"
  by (simp add: forward_eval)

lemma cross_attention_off_accelerator_raises:
  assumes "device q \<noteq> HPU"
  shows "MultiHeadAttention_forward f kn self q k v m pids alg (Some past) uc False causal
         \<noteq> Some (Inr r)"
proof
  assume "MultiHeadAttention_forward f kn self q k v m pids alg (Some past) uc False causal
         = Some (Inr r)"
  from forward_Inr[of f kn self q k v m pids alg "Some past" uc False causal
      "fst r" "fst (snd r)" "snd (snd r)"] this
  obtain self' b ql Q keys vals where
    "qkv_stage f kn self q k v pids (Some past) uc False = Inr (self', b, ql, Q, keys, vals)"
    by auto
  then obtain Q0 q0 where "linear_call f (query self) q = Inr q0"
    "view [b, ql, nheads self, emb_kq_per_head self] q0 = Inr Q0"
    "(if device Q0 = HPU
      then kv_hpu f kn self b (shape k ! 1) Q0 k v pids (Some past) False
      else kv_other f self b (shape k ! 1) Q0 k v pids (Some past) uc False)
     = Inr (self', Q, keys, vals)"
    unfolding qkv_stage_def by (auto simp: ebind_Inr_iff dest!: size1_Inr)
  moreover from this assms have "device Q0 \<noteq> HPU"
    by (auto simp: linear_call_def Let_def dest!: view_Inr split: if_splits)
  ultimately have "kv_other f self b (shape k ! 1) Q0 k v pids (Some past) uc False
     = Inr (self', Q, keys, vals)" by simp
  then show False
    by (auto simp: kv_other_def kv_assign_def ebind_def read_local_def split: sum.splits)
qed

text \<open>
  Claim C2, as amended. Let the rotations that are not part of this module keep the shape
  of the keys. Take two successive self-attention calls with \<^verbatim>\<open>use_cache=True\<close>, the first
  at the start of a session (no prior cache, or an empty one) and returning a key cache
  that has elements, the second passed the cache returned by the first. Then the second
  call returns the concatenation along axis 2 of the cached keys and values with the
  newly projected ones, whose sequence axis has the length of the second input; the first
  cache has the length of the first input, so the key cache and the value cache returned
  by the second call have the sum of the two input lengths.
\<close>

theorem self_attention_cache_growth:
  assumes "rotation_keeps_shape kn self"
    and "no_prior_cache past1"
    and "MultiHeadAttention_forward f kn self q1 k1 v1 m1 pids1 alg1 past1 True True causal1
           = Some (Inr (self1, out1, Some (K1, V1)))"
    and "0 < numel K1"
    and "MultiHeadAttention_forward f kn self1 q2 k2 v2 m2 pids2 alg2 (Some (K1, V1)) True True
           causal2 = Some (Inr (self2, out2, cache2))"
  shows "\<exists>K2 V2 Kn Vn.
           cache2 = Some (K2, V2) \<and>
           shape Kn = [hd (shape q2), kvheads self, shape k2 ! 1, emb_kq_per_head self] \<and>
           shape Vn = [hd (shape q2), kvheads self, shape k2 ! 1, emb_v_per_head self] \<and>
           cat K1 Kn 2 = Inr K2 \<and> cat V1 Vn 2 = Inr V2 \<and>
           shape K1 ! 2 = shape k1 ! 1 \<and> shape V1 ! 2 = shape k1 ! 1 \<and>
           shape K2 ! 2 = shape k1 ! 1 + shape k2 ! 1 \<and>
           shape V2 ! 2 = shape k1 ! 1 + shape k2 ! 1"
proof -
  from forward_self_cache[OF assms(3,1)]
  obtain K V K' V' r where f1: "Some (K1, V1) = Some (K', V')"
    "shape K = [hd (shape q1), kvheads self, shape k1 ! 1, emb_kq_per_head self]"
    "shape V = [hd (shape q1), kvheads self, shape k1 ! 1, emb_v_per_head self]"
    "(case past1 of
              None \<Rightarrow> K' = K \<and> V' = V
            | Some (pk, pv) \<Rightarrow>
                if 0 < numel pk then cat pk K 2 = Inr K' \<and> cat pv V 2 = Inr V'
                else K' = K \<and> V' = V)"
    and s1: "self1 = self\<lparr>rotary_emb := r\<rparr>"
    by blast
  from f1(4) assms(2) have "K' = K \<and> V' = V"
    by (cases past1) (auto simp: no_prior_cache_def)
  with f1 have
        k1: "shape K1 = [hd (shape q1), kvheads self, shape k1 ! 1, emb_kq_per_head self]"
    and v1: "shape V1 = [hd (shape q1), kvheads self, shape k1 ! 1, emb_v_per_head self]"
    by auto
  from assms(1) s1 have rk: "rotation_keeps_shape kn self1" by simp
  from forward_self_cache[OF assms(5) rk]
  obtain Kn Vn K2 V2 where c2: "cache2 = Some (K2, V2)"
    and kn': "shape Kn = [hd (shape q2), kvheads self1, shape k2 ! 1, emb_kq_per_head self1]"
    and vn': "shape Vn = [hd (shape q2), kvheads self1, shape k2 ! 1, emb_v_per_head self1]"
    and cc: "(case Some (K1, V1) of
              None \<Rightarrow> K2 = Kn \<and> V2 = Vn
            | Some (pk, pv) \<Rightarrow>
                if 0 < numel pk then cat pk Kn 2 = Inr K2 \<and> cat pv Vn 2 = Inr V2
                else K2 = Kn \<and> V2 = Vn)"
    by blast
  from cc assms(4) have ck: "cat K1 Kn 2 = Inr K2" and cv: "cat V1 Vn 2 = Inr V2"
    by simp_all
  from kn' vn' s1
  have kn: "shape Kn = [hd (shape q2), kvheads self, shape k2 ! 1, emb_kq_per_head self]"
   and vn: "shape Vn = [hd (shape q2), kvheads self, shape k2 ! 1, emb_v_per_head self]"
    by simp_all
  have "shape K1 \<noteq> [0]" "shape Kn \<noteq> [0]" "shape V1 \<noteq> [0]" "shape Vn \<noteq> [0]"
    using k1 kn v1 vn by simp_all
  then have "shape K2 = (shape K1)[2 := shape K1 ! 2 + shape Kn ! 2]"
    and "shape V2 = (shape V1)[2 := shape V1 ! 2 + shape Vn ! 2]"
    using cat_shape[OF ck] cat_shape[OF cv] by blast+
  then have "shape K2 ! 2 = shape k1 ! 1 + shape k2 ! 1"
    and "shape V2 ! 2 = shape k1 ! 1 + shape k2 ! 1"
    by (simp_all add: k1 kn v1 vn)
  then show ?thesis
    using c2 kn vn ck cv k1 v1
    by (rule_tac x = K2 in exI, rule_tac x = V2 in exI, rule_tac x = Kn in exI,
        rule_tac x = Vn in exI) simp
qed

theorem self_attention_cache_growth_witness:
  "rotation_keeps_shape shape_kernels demo_mha \<and> no_prior_cache None \<and>
   (\<exists>s1 o1 K1 V1 s2 o2 K2 V2.
      MultiHeadAttention_forward nat_fp shape_kernels demo_mha
        (full [1, 2, 16] 1 CPU) (full [1, 2, 16] 1 CPU) (full [1, 2, 16] 1 CPU)
        None None None None True True False = Some (Inr (s1, o1, Some (K1, V1))) \<and>
      0 < numel K1 \<and>
      MultiHeadAttention_forward nat_fp shape_kernels s1
        (full [1, 3, 16] 1 CPU) (full [1, 3, 16] 1 CPU) (full [1, 3, 16] 1 CPU)
        None None None (Some (K1, V1)) True True False = Some (Inr (s2, o2, Some (K2, V2))) \<and>
      shape K2 ! 2 = 2 + 3 \<and> shape V2 ! 2 = 2 + 3)"
proof -
  have rk: "rotation_keeps_shape shape_kernels demo_mha"
    by (simp add: rotation_keeps_shape_def shape_kernels_def demo_mha_def
        MultiHeadAttention_init_def)
  have np: "no_prior_cache None" by (simp add: no_prior_cache_def)
  have "\<exists>s1 o1 K1 V1 s2 o2 c2.
      MultiHeadAttention_forward nat_fp shape_kernels demo_mha
        (full [1, 2, 16] 1 CPU) (full [1, 2, 16] 1 CPU) (full [1, 2, 16] 1 CPU)
        None None None None True True False = Some (Inr (s1, o1, Some (K1, V1))) \<and>
      0 < numel K1 \<and>
      MultiHeadAttention_forward nat_fp shape_kernels s1
        (full [1, 3, 16] 1 CPU) (full [1, 3, 16] 1 CPU) (full [1, 3, 16] 1 CPU)
        None None None (Some (K1, V1)) True True False = Some (Inr (s2, o2, c2))"
    by (simp add: forward_eval)
  then obtain s1 o1 K1 V1 s2 o2 c2 where
    c1: "MultiHeadAttention_forward nat_fp shape_kernels demo_mha
        (full [1, 2, 16] 1 CPU) (full [1, 2, 16] 1 CPU) (full [1, 2, 16] 1 CPU)
        None None None None True True False = Some (Inr (s1, o1, Some (K1, V1)))"
    and ne: "0 < numel K1"
    and c2: "MultiHeadAttention_forward nat_fp shape_kernels s1
        (full [1, 3, 16] 1 CPU) (full [1, 3, 16] 1 CPU) (full [1, 3, 16] 1 CPU)
        None None None (Some (K1, V1)) True True False = Some (Inr (s2, o2, c2))"
    by blast
  from self_attention_cache_growth[OF rk np c1 ne c2]
  obtain K2 V2 where "c2 = Some (K2, V2)"
    "shape K2 ! 2 = shape (full [1, 2, 16] (1::nat) CPU) ! 1 + shape (full [1, 3, 16] (1::nat) CPU) ! 1"
    "shape V2 ! 2 = shape (full [1, 2, 16] (1::nat) CPU) ! 1 + shape (full [1, 3, 16] (1::nat) CPU) ! 1"
    by blast
  then have "c2 = Some (K2, V2)" "shape K2 ! 2 = 2 + 3" "shape V2 ! 2 = 2 + 3"
    by (simp_all add: full_def)
  with rk np c1 ne c2 show ?thesis by blast
qed

text \<open>
  The claim as stated fails when the first cache has no elements, here for a batch of
  size 0: the guard \<^verbatim>\<open>past_key_value_state[0].numel() > 0\<close> is false in the second call, which
  therefore does not concatenate and returns keys of the length of its own input, 3,
  not 2 + 3.
\<close>

theorem self_attention_cache_growth_counterexample:
  "\<exists>s1 o1 K1 V1 s2 o2 K2 V2.
     MultiHeadAttention_forward nat_fp shape_kernels demo_mha
       (full [0, 2, 16] 1 CPU) (full [0, 2, 16] 1 CPU) (full [0, 2, 16] 1 CPU)
       None None None None True True False = Some (Inr (s1, o1, Some (K1, V1))) \<and>
     MultiHeadAttention_forward nat_fp shape_kernels s1
       (full [0, 3, 16] 1 CPU) (full [0, 3, 16] 1 CPU) (full [0, 3, 16] 1 CPU)
       None None None (Some (K1, V1)) True True False = Some (Inr (s2, o2, Some (K2, V2))) \<and>
     shape K1 = [0, 2, 2, 2] \<and> shape K2 = [0, 2, 3, 2] \<and> shape K2 ! 2 \<noteq> 2 + 3"
  by (simp add: forward_eval)

lemma expand_heads_4d:
  assumes "shape t = [b, h, l, d]"
  shows "\<exists>t'. expand_heads e t = Inr t' \<and> shape t' = [b, h * e, l, d] \<and>
           device t' = device t \<and> dtype t' = dtype t \<and>
           (\<forall>bi j li di. bi < b \<and> j < h * e \<and> li < l \<and> di < d \<longrightarrow>
               elem t' [bi, j, li, di] = elem t [bi, j div e, li, di])"
proof -
  have d: "j div e < h" if "j < h * e" for j
    using that by (metis less_mult_imp_div_less)
  show ?thesis
    using assms d
    by (auto simp: expand_heads_def ebind_def unsqueeze_def expand_def flatten_def Let_def)
qed

text \<open>
  Claim C3. When the KV head count divides the query head count and is smaller, so that
  the expansion factor \<open>e = nheads div kvheads\<close> is at least 2, the keys and values of shape
  \<open>[b, h, l, d]\<close> are expanded to \<open>h * e\<close> heads, expanded head \<open>j\<close> holds at every position
  the data of head \<open>j div e\<close> of the original (a contiguous block of \<open>e\<close> heads for each KV
  head), and these expanded tensors are the ones the attention kernel receives.
\<close>

theorem grouped_query_expansion:
  assumes "kvheads self dvd nheads self" "kvheads self < nheads self"
    and "shape keys = [b, h, l, d]" "shape vals = [b, h, l, dv]"
  shows "\<exists>keys_e values_e.
     expand_kv (nheads self div kvheads self) (Some keys) (Some vals) = Inr (keys_e, values_e) \<and>
     shape keys_e = [b, h * (nheads self div kvheads self), l, d] \<and>
     shape values_e = [b, h * (nheads self div kvheads self), l, dv] \<and>
     (\<forall>bi j li di. bi < b \<and> j < h * (nheads self div kvheads self) \<and> li < l \<and> di < d \<longrightarrow>
        elem keys_e [bi, j, li, di]
        = elem keys [bi, j div (nheads self div kvheads self), li, di]) \<and>
     (\<forall>bi j li di. bi < b \<and> j < h * (nheads self div kvheads self) \<and> li < l \<and> di < dv \<longrightarrow>
        elem values_e [bi, j, li, di]
        = elem vals [bi, j div (nheads self div kvheads self), li, di]) \<and>
     attend f kn self bs ql Q (Some keys) (Some vals) m alg past uc causal
     = ebind (case position_encoder self of
                Some pe \<Rightarrow> adjusted_mask pe m Q keys past uc
              | None \<Rightarrow> Inr m)
         (\<lambda>attn_mask. ebind (dispatch kn self Q keys_e values_e attn_mask alg causal)
            (\<lambda>attn. output_stage f self bs ql attn (Some keys) (Some vals) uc))"
proof -
  let ?e = "nheads self div kvheads self"
  from assms(1,2) have k0: "kvheads self \<noteq> 0" by (cases "kvheads self = 0") auto
  from assms(1,2) k0 have e1: "?e \<noteq> 1"
    by (metis dvd_mult_div_cancel mult.right_neutral nat_neq_iff)
  from expand_heads_4d[OF assms(3), of ?e] obtain ke where
    ke: "expand_heads ?e keys = Inr ke" "shape ke = [b, h * ?e, l, d]"
      "\<forall>bi j li di. bi < b \<and> j < h * ?e \<and> li < l \<and> di < d \<longrightarrow>
               elem ke [bi, j, li, di] = elem keys [bi, j div ?e, li, di]"
    by blast
  from expand_heads_4d[OF assms(4), of ?e] obtain ve where
    ve: "expand_heads ?e vals = Inr ve" "shape ve = [b, h * ?e, l, dv]"
      "\<forall>bi j li di. bi < b \<and> j < h * ?e \<and> li < l \<and> di < dv \<longrightarrow>
               elem ve [bi, j, li, di] = elem vals [bi, j div ?e, li, di]"
    by blast
  have x: "expand_kv ?e (Some keys) (Some vals) = Inr (ke, ve)"
    using e1 ke(1) ve(1) by (simp add: expand_kv_def ebind_def read_local_def)
  have a: "attend f kn self bs ql Q (Some keys) (Some vals) m alg past uc causal
     = ebind (case position_encoder self of
                Some pe \<Rightarrow> adjusted_mask pe m Q keys past uc
              | None \<Rightarrow> Inr m)
         (\<lambda>attn_mask. ebind (dispatch kn self Q ke ve attn_mask alg causal)
            (\<lambda>attn. output_stage f self bs ql attn (Some keys) (Some vals) uc))"
    using k0 x by (simp add: attend_def ebind_def read_local_def split: option.splits)
  show ?thesis
    using x ke(2,3) ve(2,3) a
    by (rule_tac x = ke in exI, rule_tac x = ve in exI) blast
qed

theorem grouped_query_expansion_witness:
  "kvheads demo_mha dvd nheads demo_mha \<and> kvheads demo_mha < nheads demo_mha \<and>
   shape (new_param nat_fp [1, 2, 1, 1]) = [1, 2, 1, 1] \<and>
   (\<exists>keys_e values_e.
      expand_kv (nheads demo_mha div kvheads demo_mha)
        (Some (new_param nat_fp [1, 2, 1, 1])) (Some (new_param nat_fp [1, 2, 1, 1]))
        = Inr (keys_e, values_e) \<and>
      shape keys_e = [1, 8, 1, 1] \<and>
      map (\<lambda>j. elem (new_param nat_fp [1, 2, 1, 1]) [0, j, 0, 0]) [0, 1] = [0, 1] \<and>
      map (\<lambda>j. elem keys_e [0, j, 0, 0]) [0, 1, 2, 3, 4, 5, 6, 7] = [0, 0, 0, 0, 1, 1, 1, 1])"
proof -
  have h: "kvheads demo_mha = 2" "nheads demo_mha = 8"
    by (simp_all add: demo_mha_def MultiHeadAttention_init_def)
  have s: "shape (new_param nat_fp [1, 2, 1, 1]) = [1, 2, 1, 1]"
    by (simp add: new_param_def)
  have v: "map (\<lambda>j. elem (new_param nat_fp [1, 2, 1, 1]) [0, j, 0, 0]) [0, 1] = [0, 1]"
    by (simp add: new_param_def nat_fp_def)
  have d: "kvheads demo_mha dvd nheads demo_mha" "kvheads demo_mha < nheads demo_mha"
    by (simp_all add: h)
  have q: "nheads demo_mha div kvheads demo_mha = 4" by (simp add: h)
  from grouped_query_expansion[where self = demo_mha and keys = "new_param nat_fp [1, 2, 1, 1]"
      and vals = "new_param nat_fp [1, 2, 1, 1]" and b = 1 and h = 2 and l = 1 and d = 1
      and dv = 1 and f = nat_fp and kn = shape_kernels and bs = 1 and ql = 1
      and Q = "new_param nat_fp [1, 2, 1, 1]" and m = None and alg = None and past = None
      and uc = False and causal = False, OF d s s]
  obtain keys_e values_e where
    x: "expand_kv (nheads demo_mha div kvheads demo_mha)
        (Some (new_param nat_fp [1, 2, 1, 1])) (Some (new_param nat_fp [1, 2, 1, 1]))
        = Inr (keys_e, values_e)"
    and sh: "shape keys_e = [1, 2 * (nheads demo_mha div kvheads demo_mha), 1, 1]"
    and el: "\<forall>bi j li di. bi < 1 \<and> j < 2 * (nheads demo_mha div kvheads demo_mha) \<and>
                li < 1 \<and> di < 1 \<longrightarrow>
        elem keys_e [bi, j, li, di]
        = elem (new_param nat_fp [1, 2, 1, 1])
            [bi, j div (nheads demo_mha div kvheads demo_mha), li, di]"
    by (elim exE conjE) (rule that; assumption)
  have e: "elem keys_e [0, j, 0, 0] = elem (new_param nat_fp [1, 2, 1, 1]) [0, j div 4, 0, 0]"
    if "j < 8" for j
    using el[rule_format, of 0 j 0 0] that by (simp add: q)
  have m: "map (\<lambda>j. elem keys_e [0, j, 0, 0]) [0, 1, 2, 3, 4, 5, 6, 7] = [0, 0, 0, 0, 1, 1, 1, 1]"
    by (simp add: e new_param_def nat_fp_def)
  have sh': "shape keys_e = [1, 8, 1, 1]" using sh by (simp add: q)
  show ?thesis
    apply (intro conjI)
       apply (rule d(1))
      apply (rule d(2))
     apply (rule s)
    apply (rule exI[of _ keys_e])
    apply (rule exI[of _ values_e])
    apply (intro conjI)
       apply (rule x)
      apply (rule sh')
     apply (rule v)
    apply (rule m)
    done
qed

section \<open>The forward pass of the parallel wrapper\<close>

lemma foldl_tensor_add_elem:
  "elem (foldl (tensor_add f) t ts) idx = foldl (fadd f) (elem t idx) (map (\<lambda>u. elem u idx) ts)"
  by (induction ts arbitrary: t) (simp_all add: tensor_add_def)

lemma foldl_tensor_add_shape: "shape (foldl (tensor_add f) t ts) = shape t"
  by (induction ts arbitrary: t) (simp_all add: tensor_add_def)

lemma all_reduce_sum_elem:
  "elem (all_reduce_sum f ts) idx
   = foldl (fadd f) (elem (hd ts) idx) (map (\<lambda>u. elem u idx) (tl ts))"
  by (simp add: all_reduce_sum_def foldl_tensor_add_elem)

lemma output_stage_cache:
  assumes "output_stage f self b ql attn keys vals uc = Inr (s, out, c)"
  shows "(uc \<longrightarrow> (\<exists>K V. c = Some (K, V))) \<and> (\<not> uc \<longrightarrow> c = None)"
  using assms unfolding output_stage_def
  by (auto simp: ebind_Inr_iff read_local_def split: if_splits option.splits)

lemma attend_cache_shape:
  assumes "attend f kn self b ql Q keys vals m alg past uc causal = Inr (s, out, c)"
  shows "(uc \<longrightarrow> (\<exists>K V. c = Some (K, V))) \<and> (\<not> uc \<longrightarrow> c = None)"
proof -
  from assms obtain attn where "output_stage f self b ql attn keys vals uc = Inr (s, out, c)"
    unfolding attend_def by (auto simp: ebind_Inr_iff split: if_splits)
  then show ?thesis by (rule output_stage_cache)
qed

lemma forward_cache_shape:
  assumes "MultiHeadAttention_forward f kn self q k v m pids alg past uc is_self causal
           = Some (Inr (s, out, c))"
  shows "(uc \<longrightarrow> (\<exists>K V. c = Some (K, V))) \<and> (\<not> uc \<longrightarrow> c = None)"
proof -
  from assms obtain self' b ql Q keys' vals' m' where
    "attend f kn self' b ql Q keys' vals' m' alg past uc causal = Inr (s, out, c)"
    unfolding MultiHeadAttention_forward_def
    by (auto simp: ebind_Inr_iff split: sum.splits option.splits)
  then show ?thesis by (rule attend_cache_shape)
qed

lemma tp_forward_any_collective:
  "TPMultiHeadAttention_forward cl f kn self q k v m pids alg past uc is_self causal =
     (case MultiHeadAttention_forward f kn self
             (copy_to_tensor_model_parallel_region cl q)
             (copy_to_tensor_model_parallel_region cl k)
             (copy_to_tensor_model_parallel_region cl v) m pids alg past uc is_self causal of
        None \<Rightarrow> None
      | Some (Inl e) \<Rightarrow> Some (Inl e)
      | Some (Inr (s, out, c)) \<Rightarrow>
          Some (Inr (s, reduce_from_tensor_model_parallel_region cl out, c)))"
proof (cases "MultiHeadAttention_forward f kn self
             (copy_to_tensor_model_parallel_region cl q)
             (copy_to_tensor_model_parallel_region cl k)
             (copy_to_tensor_model_parallel_region cl v) m pids alg past uc is_self causal")
  case None
  then show ?thesis by (simp add: TPMultiHeadAttention_forward_def)
next
  case (Some res)
  show ?thesis
  proof (cases res)
    case (Inl e)
    with Some show ?thesis by (simp add: TPMultiHeadAttention_forward_def)
  next
    case (Inr t)
    obtain s out c where t: "t = (s, out, c)" by (cases t)
    from forward_cache_shape[OF Some[unfolded Inr t]] have "\<not> uc \<Longrightarrow> c = None" by simp
    with Some Inr t show ?thesis by (auto simp: TPMultiHeadAttention_forward_def)
  qed
qed

text \<open>
  Claim C9. Let the workers of a group contribute the tensors \<open>outs\<close> to the reduction,
  and let the forward pass of the base class on the worker of rank \<open>r\<close> return the output
  \<open>outs ! r\<close> and the cache \<open>c\<close>. Then the forward pass of the wrapper on that worker
  returns the sum-reduction of \<open>outs\<close> as its output, at every index the sum of the
  workers' elements in rank order, and it returns \<open>c\<close> itself as the cache: a pair of
  tensors exactly when \<^verbatim>\<open>use_cache\<close> is set, and never reduced.
\<close>

theorem tp_forward_reduces_output_only:
  assumes "r < length outs"
    and "MultiHeadAttention_forward f kn self q k v m pids alg past uc is_self causal
         = Some (Inr (s, outs ! r, c))"
  shows "TPMultiHeadAttention_forward (group_collectives f outs r) f kn self q k v m pids alg
           past uc is_self causal = Some (Inr (s, all_reduce_sum f outs, c)) \<and>
         (\<forall>idx. elem (all_reduce_sum f outs) idx
                = foldl (fadd f) (elem (hd outs) idx) (map (\<lambda>u. elem u idx) (tl outs))) \<and>
         (uc \<longrightarrow> (\<exists>K V. c = Some (K, V))) \<and> (\<not> uc \<longrightarrow> c = None)"
proof -
  have "outs[r := outs ! r] = outs" by simp
  with assms(2) have "TPMultiHeadAttention_forward (group_collectives f outs r) f kn self q k v
       m pids alg past uc is_self causal = Some (Inr (s, all_reduce_sum f outs, c))"
    by (simp add: tp_forward_any_collective group_collectives_def)
  with forward_cache_shape[OF assms(2)] all_reduce_sum_elem[of f outs] show ?thesis
    by simp
qed


lemmas tp_eval = demo_tp_def TPMultiHeadAttention_init_def MultiHeadAttention.defs
  TPMultiHeadAttention.defs

theorem tp_forward_reduces_output_only_witness:
  "\<exists>s out c.
     (0::nat) < length [out, full [1, 2, 16] 5 CPU] \<and>
     MultiHeadAttention_forward nat_fp shape_kernels demo_tp
       (full [1, 2, 16] 1 CPU) (full [1, 2, 16] 1 CPU) (full [1, 2, 16] 1 CPU)
       None None None None True True False = Some (Inr (s, [out, full [1, 2, 16] 5 CPU] ! 0, c)) \<and>
     TPMultiHeadAttention_forward (group_collectives nat_fp [out, full [1, 2, 16] 5 CPU] 0)
       nat_fp shape_kernels demo_tp
       (full [1, 2, 16] 1 CPU) (full [1, 2, 16] 1 CPU) (full [1, 2, 16] 1 CPU)
       None None None None True True False
       = Some (Inr (s, all_reduce_sum nat_fp [out, full [1, 2, 16] 5 CPU], c)) \<and>
     elem (all_reduce_sum nat_fp [out, full [1, 2, 16] 5 CPU]) [0, 1, 2] = elem out [0, 1, 2] + 5 \<and>
     c \<noteq> None"
proof -
  have "\<exists>s out c. MultiHeadAttention_forward nat_fp shape_kernels demo_tp
       (full [1, 2, 16] 1 CPU) (full [1, 2, 16] 1 CPU) (full [1, 2, 16] 1 CPU)
       None None None None True True False = Some (Inr (s, out, c))"
    by (simp add: forward_eval tp_eval)
  then obtain s out c where l: "MultiHeadAttention_forward nat_fp shape_kernels demo_tp
       (full [1, 2, 16] 1 CPU) (full [1, 2, 16] 1 CPU) (full [1, 2, 16] 1 CPU)
       None None None None True True False
       = Some (Inr (s, [out, full [1, 2, 16] 5 CPU] ! 0, c))"
    by auto
  have n: "(0::nat) < length [out, full [1, 2, 16] 5 CPU]" by simp
  from tp_forward_reduces_output_only[OF n l]
  have t: "TPMultiHeadAttention_forward (group_collectives nat_fp [out, full [1, 2, 16] 5 CPU] 0)
       nat_fp shape_kernels demo_tp
       (full [1, 2, 16] 1 CPU) (full [1, 2, 16] 1 CPU) (full [1, 2, 16] 1 CPU)
       None None None None True True False
       = Some (Inr (s, all_reduce_sum nat_fp [out, full [1, 2, 16] 5 CPU], c))"
    and e: "elem (all_reduce_sum nat_fp [out, full [1, 2, 16] 5 CPU]) [0, 1, 2]
       = foldl (fadd nat_fp) (elem (hd [out, full [1, 2, 16] 5 CPU]) [0, 1, 2])
           (map (\<lambda>u. elem u [0, 1, 2]) (tl [out, full [1, 2, 16] 5 CPU]))"
    and c: "c \<noteq> None"
    by auto
  from e have e': "elem (all_reduce_sum nat_fp [out, full [1, 2, 16] 5 CPU]) [0, 1, 2]
      = elem out [0, 1, 2] + 5"
    by (simp add: nat_fp_def full_def)
  show ?thesis
    apply (rule exI[of _ s])
    apply (rule exI[of _ out])
    apply (rule exI[of _ c])
    apply (intro conjI)
        apply (rule n)
       apply (rule l)
      apply (rule t)
     apply (rule e')
    apply (rule c)
    done
qed

section \<open>Loading weights\<close>

lemma load_weights_lookup_error:
  "grab_weights gsw self tv = Inl e \<Longrightarrow> load_weights gsw sc self tv = (self, Some e)"
  by (simp add: load_weights_def)

lemma length_gt_iff_unused:
  assumes "distinct (map fst tv)" "used \<subseteq> set (map fst tv)" "card used = n"
  shows "n < length tv \<longleftrightarrow> set (map fst tv) - used \<noteq> {}"
proof -
  have l: "length tv = card (set (map fst tv))"
    using assms(1) by (metis distinct_card length_map)
  have f: "finite (set (map fst tv))" by simp
  show ?thesis
  proof
    assume "n < length tv"
    with l assms(3) have "card used < card (set (map fst tv))" by simp
    then show "set (map fst tv) - used \<noteq> {}" using assms(2) by auto
  next
    assume "set (map fst tv) - used \<noteq> {}"
    with assms(2) have "used \<subset> set (map fst tv)" by auto
    from psubset_card_mono[OF f this] l assms(3) show "n < length tv" by simp
  qed
qed

lemma load_weights_few_entries:
  assumes "grab_weights gsw self tv = Inr (g, used)"
    and "length tv \<le> (if use_bias self then 8 else 4)"
  shows "load_weights gsw sc self tv = copy_weights sc self g"
  using assms by (auto simp: load_weights_def)

text \<open>
  Claim C6, as amended. Let the names of the mapping be distinct. If every lookup of
  step 1 succeeds and the lookups together consume 4 entries of the mapping (8 with
  \<^verbatim>\<open>use_bias\<close>), then: if the mapping has any other entry, the unused-weights error is
  raised, it lists exactly the names that were not consumed, and the module is returned as
  it was, whatever \<^verbatim>\<open>sharded_copy\<close> does (no copy has run); if it has none, the call goes on
  to the copies. If a lookup raises, that exception leaves the call, and again the module
  is as it was.
\<close>

theorem load_weights_unused_error:
  assumes "distinct (map fst tv)"
  shows "(\<forall>g used. grab_weights gsw self tv = Inr (g, used) \<and> used \<subseteq> set (map fst tv) \<and>
             card used = (if use_bias self then 8 else 4) \<and> set (map fst tv) - used \<noteq> {} \<longrightarrow>
           load_weights gsw sc self tv
           = (self, Some (AttributeError (set (map fst tv) - used)))) \<and>
         (\<forall>g used. grab_weights gsw self tv = Inr (g, used) \<and> used \<subseteq> set (map fst tv) \<and>
             card used = (if use_bias self then 8 else 4) \<and> set (map fst tv) - used = {} \<longrightarrow>
           load_weights gsw sc self tv = copy_weights sc self g) \<and>
         (\<forall>e. grab_weights gsw self tv = Inl e \<longrightarrow> load_weights gsw sc self tv = (self, Some e))"
proof (intro conjI allI impI)
  fix g used
  assume h: "grab_weights gsw self tv = Inr (g, used) \<and> used \<subseteq> set (map fst tv) \<and>
             card used = (if use_bias self then 8 else 4) \<and> set (map fst tv) - used \<noteq> {}"
  with length_gt_iff_unused[OF assms, of used "if use_bias self then 8 else 4"]
  have "(if use_bias self then 8 else 4) < length tv" by blast
  with h show "load_weights gsw sc self tv
           = (self, Some (AttributeError (set (map fst tv) - used)))"
    by (simp add: load_weights_def)
next
  fix g used
  assume h: "grab_weights gsw self tv = Inr (g, used) \<and> used \<subseteq> set (map fst tv) \<and>
             card used = (if use_bias self then 8 else 4) \<and> set (map fst tv) - used = {}"
  with length_gt_iff_unused[OF assms, of used "if use_bias self then 8 else 4"]
  have "\<not> (if use_bias self then 8 else 4) < length tv" by blast
  with h show "load_weights gsw sc self tv = copy_weights sc self g"
    by (simp add: load_weights_def)
next
  fix e assume "grab_weights gsw self tv = Inl e"
  then show "load_weights gsw sc self tv = (self, Some e)" by (rule load_weights_lookup_error)
qed

lemmas grab_eval = grab_weights_def get_sd_weight_by_suffix_def endswith_def ebind_def

lemma demo_use_bias: "use_bias demo_tp = False"
  by (simp add: tp_eval MultiHeadAttention_init_def ebind_def)

lemma grab5: "\<exists>g. grab_weights get_sd_weight_by_suffix demo_tp
      (demo_weights @ [(''foo.weight'', full [1] 9 CPU)])
    = Inr (g, {''query.weight'', ''key.weight'', ''value.weight'', ''dense.weight''})"
  by (auto simp add: grab_eval demo_weights_def demo_use_bias)

theorem load_weights_unused_error_witness:
  "distinct (map fst (demo_weights @ [(''foo.weight'', full [1] 9 CPU)])) \<and>
   use_bias demo_tp = False \<and>
   (\<exists>g. grab_weights get_sd_weight_by_suffix demo_tp
           (demo_weights @ [(''foo.weight'', full [1] 9 CPU)])
         = Inr (g, {''query.weight'', ''key.weight'', ''value.weight'', ''dense.weight''})) \<and>
   card {''query.weight'', ''key.weight'', ''value.weight'', ''dense.weight''} = 4 \<and>
   set (map fst (demo_weights @ [(''foo.weight'', full [1] 9 CPU)]))
     - {''query.weight'', ''key.weight'', ''value.weight'', ''dense.weight''} = {''foo.weight''} \<and>
   load_weights get_sd_weight_by_suffix copy_whole demo_tp
     (demo_weights @ [(''foo.weight'', full [1] 9 CPU)])
   = (demo_tp, Some (AttributeError {''foo.weight''}))"
proof -
  let ?tv = "demo_weights @ [(''foo.weight'', full [1] (9::nat) CPU)]"
  let ?U = "{''query.weight'', ''key.weight'', ''value.weight'', ''dense.weight''}"
  have d: "distinct (map fst ?tv)" by (simp add: demo_weights_def)
  from grab5 obtain g where g: "grab_weights get_sd_weight_by_suffix demo_tp ?tv = Inr (g, ?U)"
    by blast
  have c: "card ?U = 4" by simp
  have s: "?U \<subseteq> set (map fst ?tv)" by (simp add: demo_weights_def)
  have u: "set (map fst ?tv) - ?U = {''foo.weight''}" by (auto simp: demo_weights_def)
  from load_weights_unused_error[OF d, of get_sd_weight_by_suffix demo_tp copy_whole]
    g s c u demo_use_bias
  have l: "load_weights get_sd_weight_by_suffix copy_whole demo_tp ?tv
       = (demo_tp, Some (AttributeError (set (map fst ?tv) - ?U)))"
    by (auto simp del: set_append set_simps)
  show ?thesis
    apply (intro conjI)
         apply (rule d)
        apply (rule demo_use_bias)
       apply (rule exI[of _ g])
       apply (rule g)
      apply (rule c)
     apply (rule u)
    apply (simp only: l u)
    done
qed

text \<open>
  The claim as stated fails when an entry of the mapping stands in for a recognized one:
  with the three entries \<^verbatim>\<open>query.weight\<close>, \<^verbatim>\<open>key.weight\<close>, \<^verbatim>\<open>value.weight\<close> and the entry
  \<^verbatim>\<open>foo.weight\<close>, and no bias, the mapping has 4 entries, so the check \<^verbatim>\<open>len(tensor_values) > 4\<close>
  cannot raise the unused-weights error. Here the lookup of the dense weight raises
  first; \<^verbatim>\<open>foo.weight\<close> is never reported.
\<close>

theorem load_weights_unused_error_counterexample:
  "''foo.weight'' \<in> set (map fst
       [(''query.weight'', full [16, 16] (1::nat) CPU), (''key.weight'', full [4, 16] 2 CPU),
        (''value.weight'', full [4, 16] 3 CPU), (''foo.weight'', full [1] 9 CPU)]) \<and>
   load_weights get_sd_weight_by_suffix copy_whole demo_tp
       [(''query.weight'', full [16, 16] 1 CPU), (''key.weight'', full [4, 16] 2 CPU),
        (''value.weight'', full [4, 16] 3 CPU), (''foo.weight'', full [1] 9 CPU)]
     = (demo_tp, Some (ValueError ''Weight not found'')) \<and>
   load_weights get_sd_weight_by_suffix copy_whole demo_tp
       [(''query.weight'', full [16, 16] 1 CPU), (''key.weight'', full [4, 16] 2 CPU),
        (''value.weight'', full [4, 16] 3 CPU), (''foo.weight'', full [1] 9 CPU)]
     \<noteq> (demo_tp, Some (AttributeError {''foo.weight''}))"
  by (simp add: load_weights_def grab_eval demo_use_bias)

section \<open>The prior cache is not written\<close>

lemma alloc_keeps: "alloc h t = (h', r) \<Longrightarrow> r = length h \<and> h' = h @ [t]"
  by (auto simp: alloc_def)

lemma cat_heap_Inr:
  assumes "cat_heap h a b d = Inr (h', r)"
  shows "a < length h \<and> b < length h \<and> r = length h \<and>
         (\<exists>t. cat (h ! a) (h ! b) d = Inr t \<and> h' = h @ [t])"
  using assms
  by (auto simp: cat_heap_def deref_def alloc_def ebind_Inr_iff split: if_splits)

text \<open>
  Claim C10. In a self-attention call with \<^verbatim>\<open>use_cache=True\<close> and a prior cache whose key
  tensor has elements, with every reference given to the block allocated: the references
  left in \<^verbatim>\<open>keys\<close> and \<^verbatim>\<open>values\<close>, which the call returns as the cache, are two distinct
  references that were not allocated before the block; every tensor allocated before,
  and so both tensors of the prior cache, is exactly what it was; and the new tensors
  are the concatenations along axis 2 of the prior tensors with the new keys and values.
\<close>

theorem cache_block_leaves_prior_cache:
  assumes "cache_stage_heap h (Some k) (Some v) (Some (pk, pv)) True True
           = Inr (h', keys', vals')"
    and "pk < length h" "pv < length h" "k < length h" "v < length h"
    and "0 < numel (h ! pk)"
  shows "\<exists>k' v'. keys' = Some k' \<and> vals' = Some v' \<and>
           length h \<le> k' \<and> length h \<le> v' \<and> k' \<noteq> v' \<and>
           k' < length h' \<and> v' < length h' \<and>
           (\<forall>a. a < length h \<longrightarrow> h' ! a = h ! a) \<and>
           h' ! pk = h ! pk \<and> h' ! pv = h ! pv \<and>
           cat (h ! pk) (h ! k) 2 = Inr (h' ! k') \<and>
           cat (h ! pv) (h ! v) 2 = Inr (h' ! v')"
proof -
  from assms(1,2,6) obtain h1 k' v' where
    1: "cat_heap h pk k 2 = Inr (h1, k')" and 2: "cat_heap h1 pv v 2 = Inr (h', v')"
    and r: "keys' = Some k'" "vals' = Some v'"
    by (auto simp: cache_stage_heap_def deref_def ebind_Inr_iff read_local_def)
  from cat_heap_Inr[OF 1] obtain t1 where
    a: "k' = length h" "cat (h ! pk) (h ! k) 2 = Inr t1" "h1 = h @ [t1]"
    by blast
  from cat_heap_Inr[OF 2] obtain t2 where
    b: "v' = length h1" "cat (h1 ! pv) (h1 ! v) 2 = Inr t2" "h' = h1 @ [t2]"
    by blast
  have h': "h' = h @ [t1, t2]" using a b by simp
  have old: "h' ! a = h ! a" if "a < length h" for a
    using that by (simp add: h' nth_append)
  have c2: "cat (h ! pv) (h ! v) 2 = Inr t2"
    using b(2) assms(3,5) by (simp add: a(3) nth_append)
  have n: "h' ! k' = t1" "h' ! v' = t2"
    by (simp_all add: h' a b nth_append)
  show ?thesis
    apply (rule exI[of _ k'])
    apply (rule exI[of _ v'])
    using r a(1) b(1) old assms(2,3) a(2) c2 n
    apply (simp add: h' a(3))
    done
qed

theorem cache_block_leaves_prior_cache_witness:
  "(0::nat) < length [full [1, 2, 3, 2] (1::nat) CPU, full [1, 2, 3, 2] 2 CPU,
                      full [1, 2, 1, 2] 3 CPU, full [1, 2, 1, 2] 4 CPU] \<and>
   0 < numel (full [1, 2, 3, 2] (1::nat) CPU) \<and>
   (\<exists>h'. cache_stage_heap [full [1, 2, 3, 2] (1::nat) CPU, full [1, 2, 3, 2] 2 CPU,
                      full [1, 2, 1, 2] 3 CPU, full [1, 2, 1, 2] 4 CPU]
           (Some 2) (Some 3) (Some (0, 1)) True True = Inr (h', Some 4, Some 5) \<and>
         h' ! 0 = full [1, 2, 3, 2] 1 CPU \<and> h' ! 1 = full [1, 2, 3, 2] 2 CPU \<and>
         shape (h' ! 4) = [1, 2, 4, 2])"
proof -
  let ?h = "[full [1, 2, 3, 2] (1::nat) CPU, full [1, 2, 3, 2] 2 CPU,
                      full [1, 2, 1, 2] 3 CPU, full [1, 2, 1, 2] 4 CPU]"
  have "\<exists>h'. cache_stage_heap ?h (Some 2) (Some 3) (Some (0, 1)) True True
          = Inr (h', Some 4, Some 5) \<and> shape (h' ! 4) = [1, 2, 4, 2]"
    by (simp add: cache_stage_heap_def cat_heap_def deref_def alloc_def ebind_def
        read_local_def cat_def full_def numel_def)
  then obtain h' where c: "cache_stage_heap ?h (Some 2) (Some 3) (Some (0, 1)) True True
          = Inr (h', Some 4, Some 5)" and sh: "shape (h' ! 4) = [1, 2, 4, 2]"
    by blast
  have n: "0 < numel (?h ! 0)" by (simp add: full_def numel_def)
  from cache_block_leaves_prior_cache[OF c _ _ _ _ n]
  have "h' ! 0 = ?h ! 0" "h' ! 1 = ?h ! 1" by auto
  with c sh n show ?thesis by auto
qed

end
